theory Spec2Isabelle
  imports
    Complex_Main
    "HOL-Library.Char_ord"
    "HOL-Library.List_Lexorder"
    "HOL-Library.Option_ord"
    "HOL-Library.Product_Lexorder"
    "HOL-Library.Multiset"
begin

section \<open>TransferMap: the query server (server/index.js)\<close>

text \<open>
  The server keeps four SQLite tables (School, GTCourse, ExternalCourse, Equivalency),
  seeds them when GTCourse is empty, and answers \<^verbatim>\<open>GET /api/equivalents?gt=...\<close>.
  This theory embeds the helper \<^verbatim>\<open>normalizeGT\<close>, the schema with its constraints, the
  seed block and the query handler.
\<close>

subsection \<open>JavaScript strings\<close>

text \<open>
  A string is a list of characters. The string functions below are the ASCII fragment of
  their JavaScript namesakes: \<^verbatim>\<open>toUpperCase\<close> maps a-z to A-Z, and white space is
  TAB, LF, VT, FF, CR and SPACE (the ASCII members of the class \<^verbatim>\<open>\s\<close>, which is
  also what \<^verbatim>\<open>trim\<close> removes). Statements about arbitrary input strings carry the
  hypothesis \<open>ascii\<close>.
\<close>

definition ascii :: "string \<Rightarrow> bool" where
  "ascii s = list_all (\<lambda>c. (of_char c :: nat) < 128) s"

definition isWhiteSpace :: "char \<Rightarrow> bool" where
  "isWhiteSpace c = ((of_char c :: nat) \<in> {9, 10, 11, 12, 13, 32})"

definition isUpperAZ :: "char \<Rightarrow> bool" where
  "isUpperAZ c = (65 \<le> (of_char c :: nat) \<and> (of_char c :: nat) \<le> 90)"

definition isDigit :: "char \<Rightarrow> bool" where
  "isDigit c = (48 \<le> (of_char c :: nat) \<and> (of_char c :: nat) \<le> 57)"

definition toUpperCase_char :: "char \<Rightarrow> char" where
  "toUpperCase_char c =
     (if 97 \<le> (of_char c :: nat) \<and> (of_char c :: nat) \<le> 122
      then char_of ((of_char c :: nat) - 32) else c)"

definition toUpperCase :: "string \<Rightarrow> string" where
  "toUpperCase s = map toUpperCase_char s"

definition trim :: "string \<Rightarrow> string" where
  "trim s = rev (dropWhile isWhiteSpace (rev (dropWhile isWhiteSpace s)))"

text \<open>\<^verbatim>\<open>s.replace(/\s*/g, "")\<close>: every run of white space (and every empty match) is
  replaced by the empty string, which deletes exactly the white-space characters.\<close>

definition strip_whitespace :: "string \<Rightarrow> string" where
  "strip_whitespace s = filter (\<lambda>c. \<not> isWhiteSpace c) s"

text \<open>
  The regular expression \<^verbatim>\<open>/^([A-Z]+)(\d+)/\<close>, matched at the start of the string.
  Both groups are greedy; giving back letters of group 1 never helps, because the character
  after a shorter group 1 is a letter, not a digit. So the match exists exactly when the
  longest run of leading letters is not empty and is followed by a digit; the result is
  group 1, group 2 and the unmatched rest.
\<close>

definition match_letters_digits :: "string \<Rightarrow> (string \<times> string \<times> string) option" where
  "match_letters_digits s =
     (let g1 = takeWhile isUpperAZ s;
          r1 = dropWhile isUpperAZ s;
          g2 = takeWhile isDigit r1;
          r2 = dropWhile isDigit r1
      in if g1 \<noteq> [] \<and> g2 \<noteq> [] then Some (g1, g2, r2) else None)"

text \<open>\<^verbatim>\<open>s.replace(/^([A-Z]+)(\d+)/, "$1 $2")\<close>: without a match the string is
  returned as it is.\<close>

definition insert_space :: "string \<Rightarrow> string" where
  "insert_space s =
     (case match_letters_digits s of
        None \<Rightarrow> s
      | Some (g1, g2, r2) \<Rightarrow> g1 @ '' '' @ g2 @ r2)"

text \<open>
  \<^verbatim>\<open>
  function normalizeGT(input) {
    const raw = String(input || "").trim().toUpperCase();
    if (!raw) return "";
    return raw.replace(/\s*/g, "").replace(/^([A-Z]+)(\d+)/, "$1 $2");
  }
  \<close>
  The input is the query parameter \<^verbatim>\<open>req.query.gt\<close>: \<open>None\<close> when it is absent
  (\<^verbatim>\<open>undefined\<close>), otherwise a string; \<^verbatim>\<open>input || ""\<close> turns both
  \<^verbatim>\<open>undefined\<close> and the empty string into the empty string. (A repeated or bracketed
  parameter, which the query parser turns into an array or an object, is not covered.)
\<close>

definition normalizeGT :: "string option \<Rightarrow> string" where
  "normalizeGT input =
     (let raw = toUpperCase (trim (case input of None \<Rightarrow> [] | Some s \<Rightarrow> s))
      in if raw = [] then [] else insert_space (strip_whitespace raw))"

text \<open>The whitespace-stripped, uppercased form of a code, and the shape
  LETTERS followed by DIGITS (the whole string is one or more letters A-Z followed by one
  or more digits).\<close>

definition stripped_upper :: "string \<Rightarrow> string" where
  "stripped_upper s = strip_whitespace (toUpperCase s)"

definition letters_digits_shape :: "string \<Rightarrow> bool" where
  "letters_digits_shape s =
     (takeWhile isUpperAZ s \<noteq> [] \<and> dropWhile isUpperAZ s \<noteq> []
      \<and> list_all isDigit (dropWhile isUpperAZ s))"

text \<open>SQL's \<^verbatim>\<open>REPLACE(x, ' ', '')\<close>: every space character (and no other white space) is
  deleted.\<close>

definition remove_spaces :: "string \<Rightarrow> string" where
  "remove_spaces s = filter (\<lambda>c. c \<noteq> CHR '' '') s"


subsection \<open>The schema\<close>

text \<open>
  One record per table of the \<^verbatim>\<open>CREATE TABLE\<close> block; every column is
  \<^verbatim>\<open>NOT NULL\<close>, so no field is optional. Identifiers are SQLite's 64-bit row ids.
  Credit hours (\<^verbatim>\<open>REAL\<close>) are rationals: every finite double is one. Text is compared
  byte by byte, as SQLite's default collation does.
\<close>

record school_row =
  school_id :: int
  school_name :: string

record gtcourse_row =
  gt_id :: int
  gt_code :: string
  gt_title :: string
  gt_creditHours :: rat

record externalcourse_row =
  ext_id :: int
  ext_schoolId :: int
  ext_code :: string
  ext_title :: string
  ext_creditHours :: rat

record equivalency_row =
  eq_id :: int
  eq_gtCourseId :: int
  eq_schoolId :: int
  eq_externalCourseCode :: string
  eq_semester :: string

text \<open>
  The database: each table's rows in row-id order, and for each table the largest row id
  it ever held (the table \<^verbatim>\<open>sqlite_sequence\<close> that \<^verbatim>\<open>AUTOINCREMENT\<close> maintains).
\<close>

record store =
  School :: "school_row list"
  GTCourse :: "gtcourse_row list"
  ExternalCourse :: "externalcourse_row list"
  Equivalency :: "equivalency_row list"
  seq_School :: int
  seq_GTCourse :: int
  seq_ExternalCourse :: int
  seq_Equivalency :: int

definition empty_store :: store where
  "empty_store =
     \<lparr>School = [], GTCourse = [], ExternalCourse = [], Equivalency = [],
      seq_School = 0, seq_GTCourse = 0, seq_ExternalCourse = 0, seq_Equivalency = 0\<rparr>"

datatype db_error =
    SQLITE_FULL
  | SQLITE_CONSTRAINT_UNIQUE
  | SQLITE_CONSTRAINT_FOREIGNKEY

text \<open>
  \<^verbatim>\<open>INTEGER PRIMARY KEY AUTOINCREMENT\<close>: the new row id is one more than the largest
  row id the table ever held; when that is already the largest 64-bit integer the insert
  fails with \<^verbatim>\<open>SQLITE_FULL\<close>.
\<close>

definition max_rowid :: int where
  "max_rowid = 9223372036854775807"

definition next_rowid :: "int \<Rightarrow> int list \<Rightarrow> int option" where
  "next_rowid sq ids =
     (let m = fold max ids sq in if max_rowid \<le> m then None else Some (m + 1))"

subsection \<open>The prepared INSERT statements of the seed block\<close>

text \<open>
  Each statement returns the error SQLite raises, or the new row id
  (\<^verbatim>\<open>lastInsertRowid\<close>) and the new database. The row id is allocated first, then the
  \<^verbatim>\<open>UNIQUE\<close> constraints are checked, then the foreign keys
  (\<^verbatim>\<open>PRAGMA foreign_keys = ON\<close>). A failed statement changes nothing.
\<close>

definition insSchool :: "string \<Rightarrow> store \<Rightarrow> db_error + (int \<times> store)" where
  "insSchool name db =
     (case next_rowid (seq_School db) (map school_id (School db)) of
        None \<Rightarrow> Inl SQLITE_FULL
      | Some i \<Rightarrow>
          if name \<in> set (map school_name (School db)) then Inl SQLITE_CONSTRAINT_UNIQUE
          else Inr (i, db\<lparr>School := School db @ [\<lparr>school_id = i, school_name = name\<rparr>],
                          seq_School := i\<rparr>))"

definition insGT :: "string \<Rightarrow> string \<Rightarrow> rat \<Rightarrow> store \<Rightarrow> db_error + (int \<times> store)" where
  "insGT code title creditHours db =
     (case next_rowid (seq_GTCourse db) (map gt_id (GTCourse db)) of
        None \<Rightarrow> Inl SQLITE_FULL
      | Some i \<Rightarrow>
          if code \<in> set (map gt_code (GTCourse db)) then Inl SQLITE_CONSTRAINT_UNIQUE
          else Inr (i, db\<lparr>GTCourse := GTCourse db @
                            [\<lparr>gt_id = i, gt_code = code, gt_title = title,
                              gt_creditHours = creditHours\<rparr>],
                          seq_GTCourse := i\<rparr>))"

definition insExt ::
  "int \<Rightarrow> string \<Rightarrow> string \<Rightarrow> rat \<Rightarrow> store \<Rightarrow> db_error + (int \<times> store)" where
  "insExt schoolId code title creditHours db =
     (case next_rowid (seq_ExternalCourse db) (map ext_id (ExternalCourse db)) of
        None \<Rightarrow> Inl SQLITE_FULL
      | Some i \<Rightarrow>
          if (schoolId, code) \<in> set (map (\<lambda>x. (ext_schoolId x, ext_code x)) (ExternalCourse db))
          then Inl SQLITE_CONSTRAINT_UNIQUE
          else if schoolId \<notin> set (map school_id (School db))
          then Inl SQLITE_CONSTRAINT_FOREIGNKEY
          else Inr (i, db\<lparr>ExternalCourse := ExternalCourse db @
                            [\<lparr>ext_id = i, ext_schoolId = schoolId, ext_code = code,
                              ext_title = title, ext_creditHours = creditHours\<rparr>],
                          seq_ExternalCourse := i\<rparr>))"

definition eq_key :: "equivalency_row \<Rightarrow> int \<times> int \<times> string" where
  "eq_key e = (eq_gtCourseId e, eq_schoolId e, eq_externalCourseCode e)"

definition insEq ::
  "int \<Rightarrow> int \<Rightarrow> string \<Rightarrow> string \<Rightarrow> store \<Rightarrow> db_error + (int \<times> store)" where
  "insEq gtCourseId schoolId externalCourseCode semester db =
     (case next_rowid (seq_Equivalency db) (map eq_id (Equivalency db)) of
        None \<Rightarrow> Inl SQLITE_FULL
      | Some i \<Rightarrow>
          if (gtCourseId, schoolId, externalCourseCode) \<in> set (map eq_key (Equivalency db))
          then Inl SQLITE_CONSTRAINT_UNIQUE
          else if gtCourseId \<notin> set (map gt_id (GTCourse db))
                  \<or> schoolId \<notin> set (map school_id (School db))
          then Inl SQLITE_CONSTRAINT_FOREIGNKEY
          else Inr (i, db\<lparr>Equivalency := Equivalency db @
                            [\<lparr>eq_id = i, eq_gtCourseId = gtCourseId, eq_schoolId = schoolId,
                              eq_externalCourseCode = externalCourseCode,
                              eq_semester = semester\<rparr>],
                          seq_Equivalency := i\<rparr>))"

subsection \<open>Deletion under the schema\<close>

text \<open>
  \<^verbatim>\<open>DELETE FROM t WHERE id = ?\<close>. The foreign keys are declared
  \<^verbatim>\<open>ON DELETE CASCADE\<close>: deleting a School deletes its ExternalCourse and Equivalency
  rows, deleting a GTCourse deletes its Equivalency rows. The server itself issues no
  DELETE; these are the statements the cascade clauses of the schema answer.
\<close>

definition delSchool :: "int \<Rightarrow> store \<Rightarrow> store" where
  "delSchool i db =
     db\<lparr>School := filter (\<lambda>s. school_id s \<noteq> i) (School db),
        ExternalCourse := filter (\<lambda>x. ext_schoolId x \<noteq> i) (ExternalCourse db),
        Equivalency := filter (\<lambda>e. eq_schoolId e \<noteq> i) (Equivalency db)\<rparr>"

definition delGT :: "int \<Rightarrow> store \<Rightarrow> store" where
  "delGT i db =
     db\<lparr>GTCourse := filter (\<lambda>g. gt_id g \<noteq> i) (GTCourse db),
        Equivalency := filter (\<lambda>e. eq_gtCourseId e \<noteq> i) (Equivalency db)\<rparr>"

definition delExt :: "int \<Rightarrow> store \<Rightarrow> store" where
  "delExt i db = db\<lparr>ExternalCourse := filter (\<lambda>x. ext_id x \<noteq> i) (ExternalCourse db)\<rparr>"

definition delEq :: "int \<Rightarrow> store \<Rightarrow> store" where
  "delEq i db = db\<lparr>Equivalency := filter (\<lambda>e. eq_id e \<noteq> i) (Equivalency db)\<rparr>"

subsection \<open>Updates outside the keys\<close>

text \<open>
  Modelled from the spec: the updates in place of section 4.5 ("if it exists but
  title/credit-hours differ, update in place"; "the semester field is overwritten"), which
  the server never issues: \<^verbatim>\<open>UPDATE t SET ... WHERE id = ?\<close> on the columns that
  belong to no key. No constraint of the schema mentions these columns, so the statements
  cannot fail.
\<close>

definition updGT :: "int \<Rightarrow> string \<Rightarrow> rat \<Rightarrow> store \<Rightarrow> store" where
  "updGT i title creditHours db =
     db\<lparr>GTCourse :=
          map (\<lambda>g. if gt_id g = i then g\<lparr>gt_title := title, gt_creditHours := creditHours\<rparr>
                   else g) (GTCourse db)\<rparr>"

text \<open>Modelled from the spec: the update in place of an ExternalCourse (section 4.5, step 3),
  which the server never issues.\<close>

definition updExt :: "int \<Rightarrow> string \<Rightarrow> rat \<Rightarrow> store \<Rightarrow> store" where
  "updExt i title creditHours db =
     db\<lparr>ExternalCourse :=
          map (\<lambda>x. if ext_id x = i then x\<lparr>ext_title := title, ext_creditHours := creditHours\<rparr>
                   else x) (ExternalCourse db)\<rparr>"

text \<open>Modelled from the spec: the overwrite of the semester of an Equivalency (section 4.5,
  step 4), which the server never issues.\<close>

definition updEq :: "int \<Rightarrow> string \<Rightarrow> store \<Rightarrow> store" where
  "updEq i semester db =
     db\<lparr>Equivalency :=
          map (\<lambda>e. if eq_id e = i then e\<lparr>eq_semester := semester\<rparr> else e) (Equivalency db)\<rparr>"

subsection \<open>Store states reachable by statements\<close>

text \<open>
  A statement is one of the four INSERTs, a DELETE by id or an UPDATE outside the keys. A
  run executes statements one after another from a database; a statement that fails is
  rolled back and the run goes on (each statement is its own transaction).
\<close>

datatype statement =
    InsSchool string
  | InsGT string string rat
  | InsExt int string string rat
  | InsEq int int string string
  | DelSchool int
  | DelGT int
  | DelExt int
  | DelEq int
  | UpdGT int string rat
  | UpdExt int string rat
  | UpdEq int string

fun exec :: "statement \<Rightarrow> store \<Rightarrow> db_error + store" where
  "exec (InsSchool n) db = map_sum id snd (insSchool n db)"
| "exec (InsGT c t h) db = map_sum id snd (insGT c t h db)"
| "exec (InsExt s c t h) db = map_sum id snd (insExt s c t h db)"
| "exec (InsEq g s c m) db = map_sum id snd (insEq g s c m db)"
| "exec (DelSchool i) db = Inr (delSchool i db)"
| "exec (DelGT i) db = Inr (delGT i db)"
| "exec (DelExt i) db = Inr (delExt i db)"
| "exec (DelEq i) db = Inr (delEq i db)"
| "exec (UpdGT i t h) db = Inr (updGT i t h db)"
| "exec (UpdExt i t h) db = Inr (updExt i t h db)"
| "exec (UpdEq i m) db = Inr (updEq i m db)"

definition step :: "store \<Rightarrow> statement \<Rightarrow> store" where
  "step db st = (case exec st db of Inl _ \<Rightarrow> db | Inr db' \<Rightarrow> db')"

definition run :: "statement list \<Rightarrow> store \<Rightarrow> store" where
  "run sts db = foldl step db sts"

subsection \<open>The seed block\<close>

text \<open>
  \<^verbatim>\<open>
  const seeded = db.prepare("SELECT COUNT(*) AS c FROM GTCourse").get().c > 0;
  if (!seeded) { ... }
  \<close>
  The statements run one by one, each committed on its own. The exception of a statement
  ends the block (and the server's start) and leaves the rows inserted before it: the
  result is then the error with the database as it stands.
\<close>

definition or_throw ::
  "store \<Rightarrow> db_error + (int \<times> store) \<Rightarrow> (int \<Rightarrow> store \<Rightarrow> (db_error \<times> store) + store)
   \<Rightarrow> (db_error \<times> store) + store" where
  "or_throw db r f = (case r of Inl e \<Rightarrow> Inl (e, db) | Inr (i, db') \<Rightarrow> f i db')"

definition seed :: "store \<Rightarrow> (db_error \<times> store) + store" where
  "seed db =
     (if GTCourse db \<noteq> [] then Inr db
      else
        or_throw db (insSchool ''Georgia State University'' db) (\<lambda>gsuId db.
        or_throw db (insSchool ''Kennesaw State University'' db) (\<lambda>ksuId db.
        or_throw db (insGT ''CS 1331'' ''Introduction to Object Oriented Programming'' 3 db)
          (\<lambda>cs1331Id db.
        or_throw db (insGT ''CS 1332'' ''Data Structures and Algorithms'' 3 db)
          (\<lambda>cs1332Id db.
        or_throw db (insExt gsuId ''CSC 2510'' ''Object Oriented Programming'' 3 db) (\<lambda>_ db.
        or_throw db (insExt ksuId ''CS 2302'' ''Object Oriented Programming'' 3 db) (\<lambda>_ db.
        or_throw db (insExt gsuId ''CSC 2720'' ''Data Structures'' 3 db) (\<lambda>_ db.
        or_throw db (insEq cs1331Id gsuId ''CSC 2510'' ''Fall 2025'' db) (\<lambda>_ db.
        or_throw db (insEq cs1331Id ksuId ''CS 2302'' ''Fall 2025'' db) (\<lambda>_ db.
        or_throw db (insEq cs1332Id gsuId ''CSC 2720'' ''Fall 2025'' db) (\<lambda>_ db.
        Inr db)))))))))))"

subsection \<open>The query handler\<close>

text \<open>One row of the SELECT: the three columns of the left-joined ExternalCourse are
  \<open>None\<close> (SQL NULL) when no ExternalCourse row matches.\<close>

record item =
  schoolName :: string
  gtCourseCode :: string
  gtCourseName :: string
  gtCreditHours :: rat
  externalCourseCode :: "string option"
  externalCourseName :: "string option"
  externalCreditHours :: "rat option"
  semester :: string

text \<open>The lookup of the course: \<^verbatim>\<open>REPLACE(code, ' ', '') = REPLACE(@c, ' ', '')\<close>
  compares the two codes without their spaces, and \<^verbatim>\<open>.get()\<close> returns the first
  matching row of a scan in row-id order, or nothing.\<close>

definition find_gt :: "store \<Rightarrow> string \<Rightarrow> gtcourse_row option" where
  "find_gt db c = find (\<lambda>g. remove_spaces (gt_code g) = remove_spaces c) (GTCourse db)"

definition mk_item ::
  "school_row \<Rightarrow> gtcourse_row \<Rightarrow> externalcourse_row option \<Rightarrow> equivalency_row \<Rightarrow> item" where
  "mk_item s gc ec e =
     \<lparr>schoolName = school_name s,
      gtCourseCode = gt_code gc,
      gtCourseName = gt_title gc,
      gtCreditHours = gt_creditHours gc,
      externalCourseCode = map_option ext_code ec,
      externalCourseName = map_option ext_title ec,
      externalCreditHours = map_option ext_creditHours ec,
      semester = eq_semester e\<rparr>"

text \<open>\<^verbatim>\<open>LEFT JOIN ExternalCourse ec ON ec.schoolId = e.schoolId AND ec.code =
  e.externalCourseCode\<close>: the matching rows, or one NULL row when there is none.\<close>

definition left_join_ext :: "store \<Rightarrow> equivalency_row \<Rightarrow> externalcourse_row option list" where
  "left_join_ext db e =
     (let ms = filter (\<lambda>x. ext_schoolId x = eq_schoolId e \<and> ext_code x = eq_externalCourseCode e)
                 (ExternalCourse db)
      in if ms = [] then [None] else map Some ms)"

text \<open>The FROM, JOIN and WHERE clauses, before ORDER BY.\<close>

definition joined_rows :: "store \<Rightarrow> int \<Rightarrow> item list" where
  "joined_rows db gtId =
     [mk_item s gc ec e.
        e \<leftarrow> Equivalency db, eq_gtCourseId e = gtId,
        s \<leftarrow> School db, school_id s = eq_schoolId e,
        gc \<leftarrow> GTCourse db, gt_id gc = eq_gtCourseId e,
        ec \<leftarrow> left_join_ext db e]"

text \<open>\<^verbatim>\<open>ORDER BY s.name, ec.code\<close>: ascending, text compared byte by byte, NULL before
  every text value. SQL leaves the order of rows with equal keys open; the model keeps
  their scan order.\<close>

definition order_key :: "item \<Rightarrow> string \<times> string option" where
  "order_key it = (schoolName it, externalCourseCode it)"

definition select_rows :: "store \<Rightarrow> int \<Rightarrow> item list" where
  "select_rows db gtId = sort_key order_key (joined_rows db gtId)"

datatype response =
    Status400 string
  | Json "item list" nat

text \<open>
  \<^verbatim>\<open>
  app.get("/api/equivalents", (req, res) => {
    const gtParam = normalizeGT(req.query.gt);
    if (!gtParam) return res.status(400).json({ error: "gt is required. ..." });
    const gt = db.prepare('SELECT ... FROM GTCourse WHERE REPLACE(code, ' ', '') =
                           REPLACE(@c, ' ', '')').get({ c: gtParam });
    if (!gt) return res.json({ items: [], total: 0 });
    const rows = db.prepare(`SELECT ...`).all({ gtId: gt.id });
    res.json({ items: rows, total: rows.length });
  });
  \<close>
\<close>

definition gt_required :: string where
  "gt_required = ''gt is required. Example: /api/equivalents?gt=CS1331''"

definition equivalents :: "store \<Rightarrow> string option \<Rightarrow> response" where
  "equivalents db gt_query =
     (let gtParam = normalizeGT gt_query
      in if gtParam = []
         then Status400 gt_required
         else case find_gt db gtParam of
                None \<Rightarrow> Json [] 0
              | Some gt \<Rightarrow> (let rows = select_rows db (gt_id gt) in Json rows (length rows)))"

subsection \<open>Constraints of the schema as predicates on a database\<close>

definition unique_ok :: "store \<Rightarrow> bool" where
  "unique_ok db =
     (distinct (map school_id (School db)) \<and> distinct (map school_name (School db))
      \<and> distinct (map gt_id (GTCourse db)) \<and> distinct (map gt_code (GTCourse db))
      \<and> distinct (map ext_id (ExternalCourse db))
      \<and> distinct (map (\<lambda>x. (ext_schoolId x, ext_code x)) (ExternalCourse db))
      \<and> distinct (map eq_id (Equivalency db))
      \<and> distinct (map eq_key (Equivalency db)))"

definition fk_ok :: "store \<Rightarrow> bool" where
  "fk_ok db =
     (list_all (\<lambda>x. ext_schoolId x \<in> set (map school_id (School db))) (ExternalCourse db)
      \<and> list_all (\<lambda>e. eq_gtCourseId e \<in> set (map gt_id (GTCourse db))
                     \<and> eq_schoolId e \<in> set (map school_id (School db))) (Equivalency db))"

definition wf_store :: "store \<Rightarrow> bool" where
  "wf_store db = (unique_ok db \<and> fk_ok db)"

text \<open>The GTCourse rows stand in row-id order (the order of the scan of the lookup).\<close>

definition gt_rowid_order :: "store \<Rightarrow> bool" where
  "gt_rowid_order db = sorted_wrt (<) (map gt_id (GTCourse db))"

subsection \<open>What a joined row should be\<close>

text \<open>
  Reference for the claims about the query: the item of one Equivalency row \<open>e\<close> of the
  course \<open>g\<close> is built from the School row with the id \<open>eq_schoolId e\<close>, from
  \<open>g\<close>, and from the ExternalCourse row of that school with the code
  \<open>eq_externalCourseCode e\<close> when there is one (NULL columns otherwise). There is no
  item when the school does not exist.
\<close>

definition find_school :: "store \<Rightarrow> int \<Rightarrow> school_row option" where
  "find_school db i = find (\<lambda>s. school_id s = i) (School db)"

definition find_ext :: "store \<Rightarrow> int \<Rightarrow> string \<Rightarrow> externalcourse_row option" where
  "find_ext db i c = find (\<lambda>x. (ext_schoolId x, ext_code x) = (i, c)) (ExternalCourse db)"

definition expected_item :: "store \<Rightarrow> gtcourse_row \<Rightarrow> equivalency_row \<Rightarrow> item option" where
  "expected_item db g e =
     map_option (\<lambda>s. mk_item s g (find_ext db (eq_schoolId e) (eq_externalCourseCode e)) e)
       (find_school db (eq_schoolId e))"

definition equivalencies_of :: "store \<Rightarrow> gtcourse_row \<Rightarrow> equivalency_row list" where
  "equivalencies_of db g = filter (\<lambda>e. eq_gtCourseId e = gt_id g) (Equivalency db)"

text \<open>The statements of the seed block as a list; on the empty database the seed block is
  their run (lemma \<open>seed_empty_store\<close>).\<close>

definition seed_statements :: "statement list" where
  "seed_statements =
     [InsSchool ''Georgia State University'',
      InsSchool ''Kennesaw State University'',
      InsGT ''CS 1331'' ''Introduction to Object Oriented Programming'' 3,
      InsGT ''CS 1332'' ''Data Structures and Algorithms'' 3,
      InsExt 1 ''CSC 2510'' ''Object Oriented Programming'' 3,
      InsExt 2 ''CS 2302'' ''Object Oriented Programming'' 3,
      InsExt 1 ''CSC 2720'' ''Data Structures'' 3,
      InsEq 1 1 ''CSC 2510'' ''Fall 2025'',
      InsEq 1 2 ''CS 2302'' ''Fall 2025'',
      InsEq 2 1 ''CSC 2720'' ''Fall 2025'']"

text \<open>The seed data followed by an Equivalency that cites an external course code with no
  ExternalCourse row.\<close>

definition unmatched_statements :: "statement list" where
  "unmatched_statements = seed_statements @ [InsEq 1 2 ''CS 1301'' ''Spring 2026'']"

text \<open>A database with two GTCourse rows whose codes differ only by a space.\<close>

definition shadow_statements :: "statement list" where
  "shadow_statements =
     [InsSchool ''Georgia State University'',
      InsGT ''CS 1331'' ''Introduction to Object Oriented Programming'' 3,
      InsGT ''CS1331'' ''Intro to OOP'' 3,
      InsEq 1 1 ''CSC 2510'' ''Fall 2025'',
      InsEq 2 1 ''CSC 2511'' ''Fall 2025'']"

section \<open>The ingestion pipeline (scraper), from the specification\<close>

text \<open>
  The scraper (\<^verbatim>\<open>scraper/run.py\<close> in the README) is not among the source files; only
  the schema it writes to and the server that reads its data are. Its Normalizer and
  Persister are modelled here from sections 4.3 to 4.5 of the specification, on top of the
  statements of the schema above.
\<close>

text \<open>
  Modelled from the spec: a raw value of the Extractor (section 4.3), which is missing from
  the sources: "raw strings/numbers exactly as found". A credit-hours value is a number or
  a text.
\<close>

datatype raw_value = Number rat | Text string

text \<open>Modelled from the spec: the fields of a RawRecord (section 4.3, and the scenario of
  section 8), missing from the sources.\<close>

record raw_record =
  r_school :: string
  r_gt :: string
  r_gtTitle :: string
  r_gtCredit :: raw_value
  r_ext :: string
  r_extTitle :: string
  r_extCredit :: raw_value
  r_semester :: string

text \<open>Modelled from the spec: the NormalizedRecord of section 4.4, missing from the sources: the
  fields of the raw record with canonical codes, parsed credit hours and normalized school
  name.\<close>

record normalized_record =
  n_school :: string
  n_gt :: string
  n_gtTitle :: string
  n_gtCredit :: rat
  n_ext :: string
  n_extTitle :: string
  n_extCredit :: rat
  n_semester :: string

text \<open>Modelled from the spec: the record-level reasons of the error taxonomy (section 7),
  missing from the sources.\<close>

datatype reject_reason = MALFORMED_CODE | INVALID_CREDIT_HOURS | INTEGRITY_VIOLATION

text \<open>
  Modelled from the spec: course-code normalization of the Normalizer (section 4.4), missing
  from the sources: "strip all whitespace, uppercase, then re-insert a single space between
  the trailing run of digits and the preceding letters"; "codes that do not match LETTERS +
  DIGITS are rejected" (\<open>None\<close> here).
\<close>

definition normalize_code :: "string \<Rightarrow> string option" where
  "normalize_code s =
     (let c = toUpperCase (strip_whitespace s)
      in if letters_digits_shape c
         then Some (takeWhile isUpperAZ c @ '' '' @ dropWhile isUpperAZ c)
         else None)"

text \<open>
  Modelled from the spec: credit hours of the Normalizer (section 4.4), missing from the
  sources: "parsed as a real number; values \<le> 0 or unparsable are rejected". The spec does
  not fix the syntax of numbers, so the parser of texts is a parameter; a number is its own
  value.
\<close>

definition credit_value :: "(string \<Rightarrow> rat option) \<Rightarrow> raw_value \<Rightarrow> rat option" where
  "credit_value parse v = (case v of Number q \<Rightarrow> Some q | Text s \<Rightarrow> parse s)"

text \<open>Modelled from the spec: the accepted credit hours (section 4.4, "values \<le> 0 or unparsable
  are rejected"), missing from the sources: the parsed value when it is strictly positive.\<close>

definition positive_credit :: "(string \<Rightarrow> rat option) \<Rightarrow> raw_value \<Rightarrow> rat option" where
  "positive_credit parse v =
     (case credit_value parse v of
        None \<Rightarrow> None
      | Some q \<Rightarrow> if 0 < q then Some q else None)"

text \<open>Modelled from the spec: the credit-hours values that section 4.4 rejects, unparsable or
  \<le> 0, as a predicate for the claims.\<close>

definition invalid_credit :: "(string \<Rightarrow> rat option) \<Rightarrow> raw_value \<Rightarrow> bool" where
  "invalid_credit parse v = (case credit_value parse v of None \<Rightarrow> True | Some q \<Rightarrow> q \<le> 0)"

text \<open>
  Modelled from the spec: school names of the Normalizer (section 4.4), missing from the
  sources: "trimmed, collapsed internal whitespace". \<open>squeeze\<close> replaces each run of white
  space by one space; its flag says that the previous character was white space.
\<close>

fun squeeze :: "bool \<Rightarrow> string \<Rightarrow> string" where
  "squeeze prev [] = []"
| "squeeze prev (c # cs) =
     (if isWhiteSpace c then (if prev then squeeze True cs else CHR '' '' # squeeze True cs)
      else c # squeeze False cs)"

text \<open>Modelled from the spec: the school name "trimmed, collapsed internal whitespace" (section
  4.4), missing from the sources.\<close>

definition normalize_school :: "string \<Rightarrow> string" where
  "normalize_school s = squeeze False (trim s)"

text \<open>
  Modelled from the spec: \<^verbatim>\<open>normalize(RawRecord) -> NormalizedRecord | rejected\<close>
  (section 4.4), missing from the sources. The spec states the two rejections
  independently and gives neither priority, so a rejected record carries every reason that
  applies to it: \<open>MALFORMED_CODE\<close> when one of its two course codes is malformed,
  \<open>INVALID_CREDIT_HOURS\<close> when one of its two credit-hours values is unparsable or not
  positive.
\<close>

definition normalize_record ::
  "(string \<Rightarrow> rat option) \<Rightarrow> raw_record \<Rightarrow> reject_reason list + normalized_record" where
  "normalize_record parse r =
     (case (normalize_code (r_gt r), normalize_code (r_ext r),
            positive_credit parse (r_gtCredit r), positive_credit parse (r_extCredit r)) of
        (Some g, Some e, Some gc, Some ec) \<Rightarrow>
          Inr \<lparr>n_school = normalize_school (r_school r),
               n_gt = g, n_gtTitle = r_gtTitle r, n_gtCredit = gc,
               n_ext = e, n_extTitle = r_extTitle r, n_extCredit = ec,
               n_semester = r_semester r\<rparr>
      | (g, e, gc, ec) \<Rightarrow>
          Inl ((if g = None \<or> e = None then [MALFORMED_CODE] else [])
               @ (if gc = None \<or> ec = None then [INVALID_CREDIT_HOURS] else [])))"

text \<open>
  Modelled from the spec: the upsert policy of the Persister (section 4.5, steps 1 to 4, and
  the design note "lookup by unique key; insert if absent; compare-and-update if present"),
  missing from the sources. Each step returns the row id and the new database.
\<close>

definition upsert_school :: "string \<Rightarrow> store \<Rightarrow> db_error + (int \<times> store)" where
  "upsert_school name db =
     (case find (\<lambda>s. school_name s = name) (School db) of
        Some s \<Rightarrow> Inr (school_id s, db)
      | None \<Rightarrow> insSchool name db)"

text \<open>Modelled from the spec: step 2 of section 4.5, missing from the sources: "Insert GTCourse
  if its code does not exist; if it exists but title/credit-hours differ, update in place".\<close>

definition upsert_gt :: "string \<Rightarrow> string \<Rightarrow> rat \<Rightarrow> store \<Rightarrow> db_error + (int \<times> store)" where
  "upsert_gt code title creditHours db =
     (case find (\<lambda>g. gt_code g = code) (GTCourse db) of
        Some g \<Rightarrow>
          Inr (gt_id g,
               if gt_title g \<noteq> title \<or> gt_creditHours g \<noteq> creditHours
               then updGT (gt_id g) title creditHours db else db)
      | None \<Rightarrow> insGT code title creditHours db)"

text \<open>Modelled from the spec: step 3 of section 4.5, missing from the sources: "Insert
  ExternalCourse similarly, scoped by school".\<close>

definition upsert_ext ::
  "int \<Rightarrow> string \<Rightarrow> string \<Rightarrow> rat \<Rightarrow> store \<Rightarrow> db_error + (int \<times> store)" where
  "upsert_ext schoolId code title creditHours db =
     (case find (\<lambda>x. ext_schoolId x = schoolId \<and> ext_code x = code) (ExternalCourse db) of
        Some x \<Rightarrow>
          Inr (ext_id x,
               if ext_title x \<noteq> title \<or> ext_creditHours x \<noteq> creditHours
               then updExt (ext_id x) title creditHours db else db)
      | None \<Rightarrow> insExt schoolId code title creditHours db)"

text \<open>Modelled from the spec: step 4 of section 4.5, missing from the sources: "Insert
  Equivalency if the (GTCourse, School, externalCode) triple does not exist; if it exists
  with a different semester value [...] the semester field is overwritten".\<close>

definition upsert_eq ::
  "int \<Rightarrow> int \<Rightarrow> string \<Rightarrow> string \<Rightarrow> store \<Rightarrow> db_error + (int \<times> store)" where
  "upsert_eq gtCourseId schoolId code sem db =
     (case find (\<lambda>e. eq_key e = (gtCourseId, schoolId, code)) (Equivalency db) of
        Some e \<Rightarrow>
          Inr (eq_id e, if eq_semester e \<noteq> sem then updEq (eq_id e) sem db else db)
      | None \<Rightarrow> insEq gtCourseId schoolId code sem db)"

text \<open>
  Modelled from the spec: the transaction of section 4.5 ("any violation rolls back that
  record's transaction"), missing from the sources: the steps run in sequence and the
  first error is the result, without a database.
\<close>

definition and_then :: "'e + 'a \<Rightarrow> ('a \<Rightarrow> 'e + 'b) \<Rightarrow> 'e + 'b" where
  "and_then r f = (case r of Inl e \<Rightarrow> Inl e | Inr x \<Rightarrow> f x)"

text \<open>
  Modelled from the spec: \<^verbatim>\<open>persist(NormalizedRecord) -> outcome\<close> (section 4.5),
  missing from the sources: one transaction per record; an error of any step rolls the
  record back (the caller keeps the database it had).
\<close>

definition persist :: "normalized_record \<Rightarrow> store \<Rightarrow> db_error + store" where
  "persist n db =
     and_then (upsert_school (n_school n) db) (\<lambda>(schoolId, db).
     and_then (upsert_gt (n_gt n) (n_gtTitle n) (n_gtCredit n) db) (\<lambda>(gtCourseId, db).
     and_then (upsert_ext schoolId (n_ext n) (n_extTitle n) (n_extCredit n) db) (\<lambda>(_, db).
     and_then (upsert_eq gtCourseId schoolId (n_ext n) (n_semester n) db) (\<lambda>(_, db).
     Inr db))))"

text \<open>Modelled from the spec: the terminal states of a record (section 4.6), missing from the
  sources; a rejection carries its reasons.\<close>

datatype outcome = DONE | REJECTED "reject_reason list"

text \<open>
  Modelled from the spec: one record through Normalizer and Persister (sections 4.4 to 4.6
  and 7), missing from the sources: a record ends \<open>DONE\<close> or \<open>REJECTED\<close>; a rejected
  record leaves the database unchanged, and a failed transaction is an
  \<open>INTEGRITY_VIOLATION\<close>.
\<close>

definition process ::
  "(string \<Rightarrow> rat option) \<Rightarrow> raw_record \<Rightarrow> store \<Rightarrow> outcome \<times> store" where
  "process parse r db =
     (case normalize_record parse r of
        Inl reasons \<Rightarrow> (REJECTED reasons, db)
      | Inr n \<Rightarrow>
          (case persist n db of
             Inl _ \<Rightarrow> (REJECTED [INTEGRITY_VIOLATION], db)
           | Inr db' \<Rightarrow> (DONE, db')))"

text \<open>Modelled from the spec: the deduplication key of section 4.4, missing from the sources:
  "(GTCourse code, School name, external code, semester)".\<close>

definition dedup_key :: "normalized_record \<Rightarrow> string \<times> string \<times> string \<times> string" where
  "dedup_key n = (n_gt n, n_school n, n_ext n, n_semester n)"

text \<open>
  Modelled from the spec: a crawl run over the extracted records (sections 4.4 and 4.6),
  missing from the sources: records are processed in order; a record that normalizes to a
  (GT code, school name, external code, semester) already seen in the run is suppressed
  ("keeping the first-seen title/credit-hour values"); a rejected record does not stop the
  run.
\<close>

fun crawl_from ::
  "(string \<Rightarrow> rat option) \<Rightarrow> (string \<times> string \<times> string \<times> string) list \<Rightarrow>
   raw_record list \<Rightarrow> store \<Rightarrow> store" where
  "crawl_from parse seen [] db = db"
| "crawl_from parse seen (r # rs) db =
     (case normalize_record parse r of
        Inl _ \<Rightarrow> crawl_from parse seen rs db
      | Inr n \<Rightarrow>
          if dedup_key n \<in> set seen then crawl_from parse seen rs db
          else crawl_from parse (dedup_key n # seen) rs (snd (process parse r db)))"

text \<open>Modelled from the spec: a crawl run from an empty set of seen keys (section 4.4, "within
  a single crawl run"), missing from the sources.\<close>

definition crawl :: "(string \<Rightarrow> rat option) \<Rightarrow> raw_record list \<Rightarrow> store \<Rightarrow> store" where
  "crawl parse rs db = crawl_from parse [] rs db"

text \<open>The invariant of the data model (section 3 of the spec): credit hours of every GTCourse and
  ExternalCourse row are strictly positive.\<close>

definition credits_positive :: "store \<Rightarrow> bool" where
  "credits_positive db =
     (list_all (\<lambda>g. 0 < gt_creditHours g) (GTCourse db)
      \<and> list_all (\<lambda>x. 0 < ext_creditHours x) (ExternalCourse db))"

text \<open>A parser of unsigned decimal numerals ("3", "1.5"), to instantiate the parameter in
  examples.\<close>

definition parse_digits :: "string \<Rightarrow> nat option" where
  "parse_digits s =
     (if s \<noteq> [] \<and> list_all isDigit s
      then Some (foldl (\<lambda>n c. 10 * n + ((of_char c :: nat) - 48)) 0 s) else None)"

definition parse_decimal :: "string \<Rightarrow> rat option" where
  "parse_decimal s =
     (let t = trim s;
          whole = takeWhile (\<lambda>c. c \<noteq> CHR ''.'') t;
          rest = dropWhile (\<lambda>c. c \<noteq> CHR ''.'') t
      in case rest of
           [] \<Rightarrow> map_option of_nat (parse_digits whole)
         | _ # fraction \<Rightarrow>
             (case (parse_digits whole, parse_digits fraction) of
                (Some a, Some b) \<Rightarrow> Some (of_nat a + of_nat b / 10 ^ length fraction)
              | _ \<Rightarrow> None))"

text \<open>The raw record of the end-to-end scenario (section 8), and records with credit hours
  0 and "N/A".\<close>

definition example_record :: raw_record where
  "example_record =
     \<lparr>r_school = ''Georgia State University'', r_gt = ''CS1331'', r_gtTitle = ''Intro to OOP'',
      r_gtCredit = Number 3, r_ext = ''CSC2510'', r_extTitle = ''OOP'', r_extCredit = Number 3,
      r_semester = ''Fall 2025''\<rparr>"

definition zero_credit_record :: raw_record where
  "zero_credit_record = example_record\<lparr>r_gtCredit := Number 0\<rparr>"

definition na_credit_record :: raw_record where
  "na_credit_record = example_record\<lparr>r_extCredit := Text ''N/A''\<rparr>"

text \<open>Records of the scenario with a malformed GT code ("123ABC") and a malformed external
  code ("CS").\<close>

definition malformed_gt_record :: raw_record where
  "malformed_gt_record = example_record\<lparr>r_gt := ''123ABC''\<rparr>"

definition malformed_ext_record :: raw_record where
  "malformed_ext_record = example_record\<lparr>r_ext := ''CS''\<rparr>"

subsection \<open>The rate limiter, from the specification\<close>

text \<open>
  Modelled from the spec: the configured limit R of section 4.1 and the option
  \<^verbatim>\<open>REQUESTS_PER_MINUTE\<close> of section 6 ("default 8"), missing from the sources.
\<close>

definition default_requests_per_minute :: nat where
  "default_requests_per_minute = 8"

text \<open>
  Modelled from the spec: the slots of the limiter (section 4.1, "a simple token-bucket with
  sleep-until-next-slot"), missing from the sources: with the limit R, one request per slot
  of 60 / R seconds. A limit of 0 permits no request and is a configuration error
  (\<open>None\<close>). Time is the reading of the injected clock of section 9, in seconds.
\<close>

definition slot_length :: "nat \<Rightarrow> rat option" where
  "slot_length R = (if R = 0 then None else Some (60 / of_nat R))"

text \<open>
  Modelled from the spec: \<^verbatim>\<open>acquire()\<close> (section 4.1), missing from the sources: it
  "blocks the caller until it is permitted to issue one request". The caller asks at the
  clock reading \<open>now\<close>; the result is the time at which the call returns: at once when no
  request was granted before, otherwise not before one slot after the last grant. The
  limiter's state is the time of its last grant.
\<close>

definition acquire :: "rat \<Rightarrow> rat option \<Rightarrow> rat \<Rightarrow> rat" where
  "acquire d granted now = (case granted of None \<Rightarrow> now | Some l \<Rightarrow> max now (l + d))"

text \<open>
  Modelled from the spec: the fetch attempts of a run (section 4.2, "every call passes
  through the Rate Limiter first"; section 5, the limiter "is the sole serialization
  point"), missing from the sources: the attempts, first tries and retries alike, reach the
  limiter one after another, each at its own clock reading, and each is issued at the time
  its \<^verbatim>\<open>acquire()\<close> returns. The result is the list of the times of issue.
\<close>

fun issue_times :: "rat \<Rightarrow> rat option \<Rightarrow> rat list \<Rightarrow> rat list" where
  "issue_times d granted [] = []"
| "issue_times d granted (now # nows) =
     (let g = acquire d granted now in g # issue_times d (Some g) nows)"

text \<open>
  Modelled from the spec: a crawl run's fetch attempts under the limit R, from a fresh
  limiter (sections 4.1 and 4.6), missing from the sources.
\<close>

definition run_issue_times :: "nat \<Rightarrow> rat list \<Rightarrow> rat list option" where
  "run_issue_times R nows = map_option (\<lambda>d. issue_times d None nows) (slot_length R)"

text \<open>A burst: twelve attempts that all reach the limiter at clock reading 0.\<close>

definition burst_clock :: "rat list" where
  "burst_clock = replicate 12 0"

text \<open>The rolling 60-second window that starts at \<open>t\<close>, and the number of attempts issued
  in it (section 8, "Rate compliance").\<close>

definition attempts_in_window :: "rat \<Rightarrow> rat list \<Rightarrow> nat" where
  "attempts_in_window t gs = length (filter (\<lambda>g. t \<le> g \<and> g < t + 60) gs)"

section \<open>Properties of normalizeGT\<close>

lemma of_char_lt_256: "(of_char c :: nat) < 256"
  by (cases c) simp

lemma of_char_toUpperCase_char:
  "(of_char (toUpperCase_char c) :: nat) =
     (if 97 \<le> (of_char c :: nat) \<and> (of_char c :: nat) \<le> 122 then of_char c - 32 else of_char c)"
proof -
  have "(of_char c :: nat) - 32 < 256"
    using of_char_lt_256 [of c] by arith
  then show ?thesis by (simp add: toUpperCase_char_def)
qed

lemma isWhiteSpace_toUpperCase_char:
  "isWhiteSpace (toUpperCase_char c) = isWhiteSpace c"
  unfolding isWhiteSpace_def of_char_toUpperCase_char by auto

lemma filter_dropWhile_neg: "filter P (dropWhile (\<lambda>x. \<not> P x) xs) = filter P xs"
  by (induction xs) auto

lemma strip_whitespace_trim: "strip_whitespace (trim s) = strip_whitespace s"
proof -
  have "filter (\<lambda>c. \<not> isWhiteSpace c) (dropWhile (\<lambda>c. \<not> \<not> isWhiteSpace c) xs)
        = filter (\<lambda>c. \<not> isWhiteSpace c) xs" for xs
    by (rule filter_dropWhile_neg)
  then have d: "strip_whitespace (dropWhile isWhiteSpace xs) = strip_whitespace xs" for xs
    by (simp add: strip_whitespace_def)
  have r: "strip_whitespace (rev xs) = rev (strip_whitespace xs)" for xs
    by (simp add: strip_whitespace_def rev_filter)
  show ?thesis by (simp add: trim_def r d)
qed

lemma strip_whitespace_toUpperCase:
  "strip_whitespace (toUpperCase s) = toUpperCase (strip_whitespace s)"
  by (induction s) (auto simp: strip_whitespace_def toUpperCase_def isWhiteSpace_toUpperCase_char)

lemma stripped_upper_trim: "strip_whitespace (toUpperCase (trim s)) = stripped_upper s"
  by (simp add: stripped_upper_def strip_whitespace_toUpperCase strip_whitespace_trim)

lemma trim_Nil_iff: "trim s = [] \<longleftrightarrow> list_all isWhiteSpace s"
proof
  assume "trim s = []"
  then have all: "\<forall>c \<in> set (dropWhile isWhiteSpace s). isWhiteSpace c"
    by (simp add: trim_def dropWhile_eq_Nil_conv)
  have "dropWhile isWhiteSpace s = []"
  proof (rule ccontr)
    assume ne: "dropWhile isWhiteSpace s \<noteq> []"
    then have "\<not> isWhiteSpace (hd (dropWhile isWhiteSpace s))" by (rule hd_dropWhile)
    moreover have "hd (dropWhile isWhiteSpace s) \<in> set (dropWhile isWhiteSpace s)"
      using ne by (rule hd_in_set)
    ultimately show False using all by blast
  qed
  then show "list_all isWhiteSpace s"
    by (simp add: dropWhile_eq_Nil_conv list_all_iff)
next
  assume "list_all isWhiteSpace s"
  then have "\<forall>c \<in> set s. isWhiteSpace c"
    by (simp add: list_all_iff)
  then have d: "dropWhile isWhiteSpace s = []"
    by (simp only: dropWhile_eq_Nil_conv)
  show "trim s = []" unfolding trim_def d by simp
qed

lemma strip_whitespace_Nil_iff: "strip_whitespace s = [] \<longleftrightarrow> list_all isWhiteSpace s"
  by (auto simp: strip_whitespace_def filter_empty_conv list_all_iff)

lemma normalizeGT_Some: "normalizeGT (Some s) = insert_space (stripped_upper s)"
proof (cases "trim s = []")
  case True
  then have "stripped_upper s = []"
    by (metis stripped_upper_trim strip_whitespace_def toUpperCase_def list.simps(8) filter.simps(1))
  with True show ?thesis
    by (simp add: normalizeGT_def toUpperCase_def insert_space_def match_letters_digits_def)
next
  case False
  then show ?thesis
    by (simp add: normalizeGT_def toUpperCase_def stripped_upper_trim [unfolded toUpperCase_def])
qed

lemma no_space_stripped: "c \<in> set (strip_whitespace s) \<Longrightarrow> c \<noteq> CHR '' ''"
  by (auto simp: strip_whitespace_def isWhiteSpace_def)

lemma remove_spaces_id: "(\<And>c. c \<in> set s \<Longrightarrow> c \<noteq> CHR '' '') \<Longrightarrow> remove_spaces s = s"
  by (simp add: remove_spaces_def filter_id_conv)

lemma remove_spaces_append: "remove_spaces (xs @ ys) = remove_spaces xs @ remove_spaces ys"
  by (simp add: remove_spaces_def)

lemma remove_spaces_insert_space:
  assumes "\<And>c. c \<in> set s \<Longrightarrow> c \<noteq> CHR '' ''"
  shows "remove_spaces (insert_space s) = s"
proof (cases "match_letters_digits s")
  case None
  then show ?thesis using assms by (simp add: insert_space_def remove_spaces_id)
next
  case (Some m)
  then have eq: "insert_space s = takeWhile isUpperAZ s @ '' '' @ dropWhile isUpperAZ s"
    by (auto simp: insert_space_def match_letters_digits_def Let_def split: if_splits)
  have "remove_spaces (insert_space s)
          = remove_spaces (takeWhile isUpperAZ s) @ remove_spaces (dropWhile isUpperAZ s)"
    unfolding eq by (simp add: remove_spaces_def)
  also have "\<dots> = remove_spaces (takeWhile isUpperAZ s @ dropWhile isUpperAZ s)"
    by (simp only: remove_spaces_append)
  also have "\<dots> = remove_spaces s"
    by (simp only: takeWhile_dropWhile_id)
  finally show ?thesis using assms by (simp add: remove_spaces_id)
qed


subsection \<open>Claims about normalizeGT\<close>

text \<open>
  Claim C1. Normalization is canonical on the three spellings of the example: for the inputs
  "CS1331", "cs 1331" and "CS  1331", \<open>normalizeGT\<close> returns the same string, the
  canonical form "CS 1331".
\<close>

theorem C1_normalizeGT_canonical:
  "normalizeGT (Some ''CS1331'') = ''CS 1331''
   \<and> normalizeGT (Some ''cs 1331'') = ''CS 1331''
   \<and> normalizeGT (Some ''CS  1331'') = ''CS 1331''"
  by code_simp

text \<open>
  The server's helper has no rejection: a code without the shape LETTERS followed by DIGITS
  comes back as its stripped, uppercased form.
\<close>

lemma normalizeGT_keeps_malformed:
  "normalizeGT (Some ''123ABC'') = ''123ABC'' \<and> normalizeGT (Some ''CS'') = ''CS''"
  by code_simp

section \<open>The schema's constraints hold in every reachable database\<close>

lemma fold_max_ge: "sq \<le> fold max ids (sq::int) \<and> (\<forall>j \<in> set ids. j \<le> fold max ids sq)"
proof (induction ids arbitrary: sq)
  case Nil
  then show ?case by simp
next
  case (Cons a ids)
  have "max a sq \<le> fold max ids (max a sq)" using Cons.IH by blast
  then show ?case using Cons.IH [of "max a sq"] by auto
qed

lemma next_rowid_fresh:
  assumes "next_rowid sq ids = Some i"
  shows "i \<notin> set ids" and "sq < i" and "i \<le> max_rowid"
proof -
  from assms have i: "i = fold max ids sq + 1" and lt: "fold max ids sq < max_rowid"
    by (auto simp: next_rowid_def Let_def split: if_splits)
  from fold_max_ge [of sq ids] i show "i \<notin> set ids" by fastforce
  from fold_max_ge [of sq ids] i show "sq < i" by simp
  from i lt show "i \<le> max_rowid" by simp
qed

lemma insSchool_Inr:
  assumes "insSchool n db = Inr (i, db')"
  shows "i \<notin> set (map school_id (School db))" and "n \<notin> set (map school_name (School db))"
    and "db' = db\<lparr>School := School db @ [\<lparr>school_id = i, school_name = n\<rparr>], seq_School := i\<rparr>"
  using assms
  by (auto simp: insSchool_def split: option.splits if_splits dest: next_rowid_fresh(1))

lemma insGT_Inr:
  assumes "insGT c t h db = Inr (i, db')"
  shows "i \<notin> set (map gt_id (GTCourse db))" and "c \<notin> set (map gt_code (GTCourse db))"
    and "db' = db\<lparr>GTCourse := GTCourse db @
                   [\<lparr>gt_id = i, gt_code = c, gt_title = t, gt_creditHours = h\<rparr>],
                 seq_GTCourse := i\<rparr>"
  using assms
  by (auto simp: insGT_def split: option.splits if_splits dest: next_rowid_fresh(1))

lemma insExt_Inr:
  assumes "insExt sid c t h db = Inr (i, db')"
  shows "i \<notin> set (map ext_id (ExternalCourse db))"
    and "(sid, c) \<notin> set (map (\<lambda>x. (ext_schoolId x, ext_code x)) (ExternalCourse db))"
    and "sid \<in> set (map school_id (School db))"
    and "db' = db\<lparr>ExternalCourse := ExternalCourse db @
                   [\<lparr>ext_id = i, ext_schoolId = sid, ext_code = c, ext_title = t,
                     ext_creditHours = h\<rparr>],
                 seq_ExternalCourse := i\<rparr>"
  using assms
  by (auto simp: insExt_def split: option.splits if_splits dest: next_rowid_fresh(1))

lemma insEq_Inr:
  assumes "insEq g sid c m db = Inr (i, db')"
  shows "i \<notin> set (map eq_id (Equivalency db))"
    and "(g, sid, c) \<notin> set (map eq_key (Equivalency db))"
    and "g \<in> set (map gt_id (GTCourse db))"
    and "sid \<in> set (map school_id (School db))"
    and "db' = db\<lparr>Equivalency := Equivalency db @
                   [\<lparr>eq_id = i, eq_gtCourseId = g, eq_schoolId = sid,
                     eq_externalCourseCode = c, eq_semester = m\<rparr>],
                 seq_Equivalency := i\<rparr>"
  using assms
  by (auto simp: insEq_def split: option.splits if_splits dest: next_rowid_fresh(1))

lemma wf_insSchool: "wf_store db \<Longrightarrow> insSchool n db = Inr (i, db') \<Longrightarrow> wf_store db'"
  by (frule insSchool_Inr(1), frule insSchool_Inr(2), drule insSchool_Inr(3))
     (auto simp: wf_store_def unique_ok_def fk_ok_def list_all_iff)

lemma wf_insGT: "wf_store db \<Longrightarrow> insGT c t h db = Inr (i, db') \<Longrightarrow> wf_store db'"
  by (frule insGT_Inr(1), frule insGT_Inr(2), drule insGT_Inr(3))
     (auto simp: wf_store_def unique_ok_def fk_ok_def list_all_iff)

lemma wf_insExt: "wf_store db \<Longrightarrow> insExt sid c t h db = Inr (i, db') \<Longrightarrow> wf_store db'"
  by (frule insExt_Inr(1), frule insExt_Inr(2), frule insExt_Inr(3), drule insExt_Inr(4))
     (auto simp: wf_store_def unique_ok_def fk_ok_def list_all_iff)

lemma wf_insEq: "wf_store db \<Longrightarrow> insEq g sid c m db = Inr (i, db') \<Longrightarrow> wf_store db'"
  by (frule insEq_Inr(1), frule insEq_Inr(2), frule insEq_Inr(3), frule insEq_Inr(4),
      drule insEq_Inr(5))
     (auto simp: wf_store_def unique_ok_def fk_ok_def list_all_iff eq_key_def)

lemma wf_delSchool: "wf_store db \<Longrightarrow> wf_store (delSchool i db)"
  by (auto simp: wf_store_def unique_ok_def fk_ok_def list_all_iff delSchool_def distinct_map_filter)

lemma wf_delGT: "wf_store db \<Longrightarrow> wf_store (delGT i db)"
  by (auto simp: wf_store_def unique_ok_def fk_ok_def list_all_iff delGT_def distinct_map_filter)

lemma wf_delExt: "wf_store db \<Longrightarrow> wf_store (delExt i db)"
  by (auto simp: wf_store_def unique_ok_def fk_ok_def list_all_iff delExt_def distinct_map_filter)

lemma wf_delEq: "wf_store db \<Longrightarrow> wf_store (delEq i db)"
  by (auto simp: wf_store_def unique_ok_def fk_ok_def list_all_iff delEq_def distinct_map_filter)

lemma updGT_keys:
  "map gt_id (GTCourse (updGT i t h db)) = map gt_id (GTCourse db)"
  "map gt_code (GTCourse (updGT i t h db)) = map gt_code (GTCourse db)"
  "School (updGT i t h db) = School db"
  "ExternalCourse (updGT i t h db) = ExternalCourse db"
  "Equivalency (updGT i t h db) = Equivalency db"
  by (simp_all add: updGT_def)

lemma updExt_keys:
  "map ext_id (ExternalCourse (updExt i t h db)) = map ext_id (ExternalCourse db)"
  "map (\<lambda>x. (ext_schoolId x, ext_code x)) (ExternalCourse (updExt i t h db))
     = map (\<lambda>x. (ext_schoolId x, ext_code x)) (ExternalCourse db)"
  "map ext_schoolId (ExternalCourse (updExt i t h db)) = map ext_schoolId (ExternalCourse db)"
  "School (updExt i t h db) = School db"
  "GTCourse (updExt i t h db) = GTCourse db"
  "Equivalency (updExt i t h db) = Equivalency db"
  by (simp_all add: updExt_def)

lemma updEq_keys:
  "map eq_id (Equivalency (updEq i m db)) = map eq_id (Equivalency db)"
  "map eq_key (Equivalency (updEq i m db)) = map eq_key (Equivalency db)"
  "School (updEq i m db) = School db"
  "GTCourse (updEq i m db) = GTCourse db"
  "ExternalCourse (updEq i m db) = ExternalCourse db"
  by (simp_all add: updEq_def eq_key_def)

lemma fk_ok_alt:
  "fk_ok db \<longleftrightarrow>
     set (map ext_schoolId (ExternalCourse db)) \<subseteq> set (map school_id (School db))
     \<and> set (map (\<lambda>e. (eq_gtCourseId e, eq_schoolId e)) (Equivalency db))
           \<subseteq> set (map gt_id (GTCourse db)) \<times> set (map school_id (School db))"
  by (auto simp: fk_ok_def list_all_iff)

lemma eq_fk_from_key:
  "map (\<lambda>e. (eq_gtCourseId e, eq_schoolId e)) es = map (\<lambda>k. (fst k, fst (snd k))) (map eq_key es)"
  by (simp add: eq_key_def)

lemma wf_updGT: "wf_store db \<Longrightarrow> wf_store (updGT i t h db)"
  unfolding wf_store_def unique_ok_def fk_ok_alt updGT_keys by simp

lemma wf_updExt: "wf_store db \<Longrightarrow> wf_store (updExt i t h db)"
  unfolding wf_store_def unique_ok_def fk_ok_alt updExt_keys by simp

lemma wf_updEq: "wf_store db \<Longrightarrow> wf_store (updEq i m db)"
  unfolding wf_store_def unique_ok_def fk_ok_alt eq_fk_from_key updEq_keys by simp

lemma wf_exec: "wf_store db \<Longrightarrow> exec st db = Inr db' \<Longrightarrow> wf_store db'"
proof (cases st)
  case (InsSchool n)
  assume "wf_store db" "exec st db = Inr db'"
  with InsSchool show ?thesis
    by (cases "insSchool n db") (auto dest: wf_insSchool)
next
  case (InsGT c t h)
  assume "wf_store db" "exec st db = Inr db'"
  with InsGT show ?thesis
    by (cases "insGT c t h db") (auto dest: wf_insGT)
next
  case (InsExt sid c t h)
  assume "wf_store db" "exec st db = Inr db'"
  with InsExt show ?thesis
    by (cases "insExt sid c t h db") (auto dest: wf_insExt)
next
  case (InsEq g sid c m)
  assume "wf_store db" "exec st db = Inr db'"
  with InsEq show ?thesis
    by (cases "insEq g sid c m db") (auto dest: wf_insEq)
qed (auto simp: wf_delSchool wf_delGT wf_delExt wf_delEq wf_updGT wf_updExt wf_updEq)

lemma wf_step: "wf_store db \<Longrightarrow> wf_store (step db st)"
  by (auto simp: step_def split: sum.splits dest: wf_exec)

lemma wf_foldl_step: "wf_store db \<Longrightarrow> wf_store (foldl step db sts)"
  by (induction sts arbitrary: db) (auto simp: wf_step)

lemma wf_empty_store: "wf_store empty_store"
  by (simp add: wf_store_def unique_ok_def fk_ok_def empty_store_def)

lemma wf_run: "wf_store (run sts empty_store)"
  unfolding run_def by (rule wf_foldl_step [OF wf_empty_store])

lemma seed_empty_store: "seed empty_store = Inr (run seed_statements empty_store)"
  by code_simp

lemma run_snoc: "run (sts @ [st]) db = step (run sts db) st"
  by (simp add: run_def)

lemma insEq_duplicate:
  assumes "e \<in> set (Equivalency db)"
  shows "insEq (eq_gtCourseId e) (eq_schoolId e) (eq_externalCourseCode e) m db
           \<in> {Inl SQLITE_FULL, Inl SQLITE_CONSTRAINT_UNIQUE}"
proof -
  from assms have "eq_key e \<in> set (map eq_key (Equivalency db))" by simp
  then show ?thesis
    by (simp add: insEq_def eq_key_def split: option.splits)
qed

subsection \<open>Claims about the constraints\<close>

text \<open>
  Claim C4. In every database reachable by statements from the empty one, the Equivalency
  rows are unique per (gtCourseId, schoolId, externalCourseCode); inserting a fact whose
  triple is already stored fails (whatever its semester) and leaves the database as it was,
  so no second row with that triple appears. A re-scrape is a sequence of such statements
  (lemma \<open>crawl_reachable\<close> for the pipeline of the specification).
\<close>

theorem C4_equivalency_unique:
  "distinct (map eq_key (Equivalency (run sts empty_store)))
   \<and> (\<forall>e \<in> set (Equivalency (run sts empty_store)).
         insEq (eq_gtCourseId e) (eq_schoolId e) (eq_externalCourseCode e) m
           (run sts empty_store) \<in> {Inl SQLITE_FULL, Inl SQLITE_CONSTRAINT_UNIQUE}
         \<and> run (sts @ [InsEq (eq_gtCourseId e) (eq_schoolId e) (eq_externalCourseCode e) m])
               empty_store = run sts empty_store)"
proof (intro conjI ballI)
  have "wf_store (run sts empty_store)" by (rule wf_run)
  then show "distinct (map eq_key (Equivalency (run sts empty_store)))"
    by (simp add: wf_store_def unique_ok_def)
next
  fix e assume "e \<in> set (Equivalency (run sts empty_store))"
  then show "insEq (eq_gtCourseId e) (eq_schoolId e) (eq_externalCourseCode e) m
           (run sts empty_store) \<in> {Inl SQLITE_FULL, Inl SQLITE_CONSTRAINT_UNIQUE}"
    by (rule insEq_duplicate)
next
  fix e assume "e \<in> set (Equivalency (run sts empty_store))"
  then have "insEq (eq_gtCourseId e) (eq_schoolId e) (eq_externalCourseCode e) m
           (run sts empty_store) \<in> {Inl SQLITE_FULL, Inl SQLITE_CONSTRAINT_UNIQUE}"
    by (rule insEq_duplicate)
  then show "run (sts @ [InsEq (eq_gtCourseId e) (eq_schoolId e) (eq_externalCourseCode e) m])
               empty_store = run sts empty_store"
    by (auto simp: run_snoc step_def)
qed

theorem C4_equivalency_unique_witness:
  "distinct (map eq_key (Equivalency (run seed_statements empty_store)))
   \<and> \<lparr>eq_id = 1, eq_gtCourseId = 1, eq_schoolId = 1, eq_externalCourseCode = ''CSC 2510'',
       eq_semester = ''Fall 2025''\<rparr> \<in> set (Equivalency (run seed_statements empty_store))
   \<and> insEq 1 1 ''CSC 2510'' ''Spring 2026'' (run seed_statements empty_store)
        \<in> {Inl SQLITE_FULL, Inl SQLITE_CONSTRAINT_UNIQUE}
   \<and> run (seed_statements @ [InsEq 1 1 ''CSC 2510'' ''Spring 2026'']) empty_store
        = run seed_statements empty_store"
proof -
  have mem: "\<lparr>eq_id = 1, eq_gtCourseId = 1, eq_schoolId = 1, eq_externalCourseCode = ''CSC 2510'',
       eq_semester = ''Fall 2025''\<rparr> \<in> set (Equivalency (run seed_statements empty_store))"
    by code_simp
  from C4_equivalency_unique [of seed_statements "''Spring 2026''"] mem
  show ?thesis by fastforce
qed

text \<open>
  Claim C5. In every reachable database each Equivalency row references a School row and a
  GTCourse row that exist (and each ExternalCourse row an existing School); an insert of an
  Equivalency whose GTCourse or School does not exist fails; deleting a School leaves no
  ExternalCourse or Equivalency row of that school, and deleting a GTCourse leaves no
  Equivalency row of that course. The databases after the deletions are reachable too, so
  the first part says that nothing in them dangles.
\<close>

theorem C5_referential_integrity:
  "(\<forall>e \<in> set (Equivalency (run sts empty_store)).
       eq_schoolId e \<in> set (map school_id (School (run sts empty_store)))
       \<and> eq_gtCourseId e \<in> set (map gt_id (GTCourse (run sts empty_store))))
   \<and> (\<forall>x \<in> set (ExternalCourse (run sts empty_store)).
       ext_schoolId x \<in> set (map school_id (School (run sts empty_store))))
   \<and> (g \<notin> set (map gt_id (GTCourse (run sts empty_store)))
        \<or> s \<notin> set (map school_id (School (run sts empty_store)))
      \<longrightarrow> isl (insEq g s c m (run sts empty_store)))
   \<and> i \<notin> set (map school_id (School (run (sts @ [DelSchool i]) empty_store)))
   \<and> i \<notin> set (map ext_schoolId (ExternalCourse (run (sts @ [DelSchool i]) empty_store)))
   \<and> i \<notin> set (map eq_schoolId (Equivalency (run (sts @ [DelSchool i]) empty_store)))
   \<and> i \<notin> set (map gt_id (GTCourse (run (sts @ [DelGT i]) empty_store)))
   \<and> i \<notin> set (map eq_gtCourseId (Equivalency (run (sts @ [DelGT i]) empty_store)))"
proof -
  have "wf_store (run sts empty_store)" by (rule wf_run)
  then have fk: "fk_ok (run sts empty_store)" by (simp add: wf_store_def)
  have a: "\<forall>e \<in> set (Equivalency (run sts empty_store)).
       eq_schoolId e \<in> set (map school_id (School (run sts empty_store)))
       \<and> eq_gtCourseId e \<in> set (map gt_id (GTCourse (run sts empty_store)))"
    using fk by (simp add: fk_ok_def list_all_iff)
  have b: "\<forall>x \<in> set (ExternalCourse (run sts empty_store)).
       ext_schoolId x \<in> set (map school_id (School (run sts empty_store)))"
    using fk by (simp add: fk_ok_def list_all_iff)
  have c: "g \<notin> set (map gt_id (GTCourse db)) \<or> s \<notin> set (map school_id (School db))
      \<longrightarrow> isl (insEq g s c m db)" for db
    by (simp add: insEq_def split: option.splits)
  have d: "i \<notin> set (map school_id (School (delSchool i db)))
      \<and> i \<notin> set (map ext_schoolId (ExternalCourse (delSchool i db)))
      \<and> i \<notin> set (map eq_schoolId (Equivalency (delSchool i db)))" for db
    by (auto simp: delSchool_def)
  have e: "i \<notin> set (map gt_id (GTCourse (delGT i db)))
      \<and> i \<notin> set (map eq_gtCourseId (Equivalency (delGT i db)))" for db
    by (auto simp: delGT_def)
  show ?thesis
    using a b c [of "run sts empty_store"] d [of "run sts empty_store"] e [of "run sts empty_store"]
    by (simp only: run_snoc step_def exec.simps sum.case) blast
qed

theorem C5_referential_integrity_witness:
  "\<lparr>eq_id = 2, eq_gtCourseId = 1, eq_schoolId = 2, eq_externalCourseCode = ''CS 2302'',
       eq_semester = ''Fall 2025''\<rparr> \<in> set (Equivalency (run seed_statements empty_store))
   \<and> 2 \<in> set (map school_id (School (run seed_statements empty_store)))
   \<and> 1 \<in> set (map gt_id (GTCourse (run seed_statements empty_store)))
   \<and> \<lparr>ext_id = 2, ext_schoolId = 2, ext_code = ''CS 2302'',
        ext_title = ''Object Oriented Programming'', ext_creditHours = 3\<rparr>
        \<in> set (ExternalCourse (run seed_statements empty_store))
   \<and> 7 \<notin> set (map gt_id (GTCourse (run seed_statements empty_store)))
   \<and> isl (insEq 7 2 ''CS 2302'' ''Fall 2025'' (run seed_statements empty_store))
   \<and> 2 \<notin> set (map school_id (School (run (seed_statements @ [DelSchool 2]) empty_store)))
   \<and> 2 \<notin> set (map ext_schoolId (ExternalCourse (run (seed_statements @ [DelSchool 2]) empty_store)))
   \<and> 2 \<notin> set (map eq_schoolId (Equivalency (run (seed_statements @ [DelSchool 2]) empty_store)))
   \<and> 2 \<notin> set (map gt_id (GTCourse (run (seed_statements @ [DelGT 2]) empty_store)))
   \<and> 2 \<notin> set (map eq_gtCourseId (Equivalency (run (seed_statements @ [DelGT 2]) empty_store)))"
proof -
  have m1: "\<lparr>eq_id = 2, eq_gtCourseId = 1, eq_schoolId = 2, eq_externalCourseCode = ''CS 2302'',
       eq_semester = ''Fall 2025''\<rparr> \<in> set (Equivalency (run seed_statements empty_store))"
    by code_simp
  have m2: "\<lparr>ext_id = 2, ext_schoolId = 2, ext_code = ''CS 2302'',
        ext_title = ''Object Oriented Programming'', ext_creditHours = 3\<rparr>
        \<in> set (ExternalCourse (run seed_statements empty_store))"
    by code_simp
  have m3: "7 \<notin> set (map gt_id (GTCourse (run seed_statements empty_store)))"
    by code_simp
  from C5_referential_integrity [of seed_statements 7 2 "''CS 2302''" "''Fall 2025''" 2] m1 m2 m3
  show ?thesis by fastforce
qed

section \<open>Properties of the query handler\<close>

lemma notin_map_ball: "k \<notin> set (map f xs) \<Longrightarrow> \<forall>x \<in> set xs. f x \<noteq> k"
  by auto

lemma notin_map_pair:
  "(a, b) \<notin> set (map (\<lambda>x. (f x, g x)) xs) \<Longrightarrow> \<forall>x \<in> set xs. \<not> (f x = a \<and> g x = b)"
  by auto

lemma concat_map_if:
  "concat (map (\<lambda>x. if P x then f x else []) xs) = concat (map f (filter P xs))"
  by (induction xs) auto

lemma joined_rows_filter:
  "joined_rows db gtId =
     concat (map (\<lambda>e.
       concat (map (\<lambda>s.
         concat (map (\<lambda>gc. map (\<lambda>ec. mk_item s gc ec e) (left_join_ext db e))
           (filter (\<lambda>gc. gt_id gc = eq_gtCourseId e) (GTCourse db))))
         (filter (\<lambda>s. school_id s = eq_schoolId e) (School db))))
       (filter (\<lambda>e. eq_gtCourseId e = gtId) (Equivalency db)))"
  unfolding joined_rows_def by (simp add: concat_map_if)

lemma filter_key_unique:
  "distinct (map f xs) \<Longrightarrow> x \<in> set xs \<Longrightarrow> filter (\<lambda>y. f y = f x) xs = [x]"
proof (induction xs)
  case Nil
  then show ?case by simp
next
  case (Cons a xs)
  show ?case
  proof (cases "a = x")
    case True
    with Cons.prems have "f x \<notin> f ` set xs" by simp
    then have "filter (\<lambda>y. f y = f x) xs = []"
      unfolding filter_empty_conv by (metis imageI)
    with True show ?thesis by simp
  next
    case False
    with Cons.prems have "x \<in> set xs" "f a \<noteq> f x" "distinct (map f xs)" by auto
    with Cons.IH show ?thesis by simp
  qed
qed

lemma find_key_unique:
  "distinct (map f xs) \<Longrightarrow> x \<in> set xs \<Longrightarrow> find (\<lambda>y. f y = f x) xs = Some x"
  by (induction xs) auto

lemma filter_key_find:
  "distinct (map f xs) \<Longrightarrow>
     (if filter (\<lambda>y. f y = k) xs = [] then [None] else map Some (filter (\<lambda>y. f y = k) xs))
       = [find (\<lambda>y. f y = k) xs]"
proof (cases "\<exists>x \<in> set xs. f x = k")
  case True
  assume d: "distinct (map f xs)"
  from True obtain x where x: "x \<in> set xs" "f x = k" by blast
  from filter_key_unique [OF d x(1)] find_key_unique [OF d x(1)] x(2)
  show ?thesis by simp
next
  case False
  then have "filter (\<lambda>y. f y = k) xs = []" by (auto simp: filter_empty_conv)
  moreover from False have "find (\<lambda>y. f y = k) xs = None" by (auto simp: find_None_iff)
  ultimately show ?thesis by simp
qed

lemma left_join_ext_find:
  assumes "unique_ok db"
  shows "left_join_ext db e = [find_ext db (eq_schoolId e) (eq_externalCourseCode e)]"
proof -
  from assms have d: "distinct (map (\<lambda>x. (ext_schoolId x, ext_code x)) (ExternalCourse db))"
    by (simp add: unique_ok_def)
  have "left_join_ext db e =
     (if filter (\<lambda>x. (ext_schoolId x, ext_code x) = (eq_schoolId e, eq_externalCourseCode e))
           (ExternalCourse db) = [] then [None]
      else map Some (filter (\<lambda>x. (ext_schoolId x, ext_code x) = (eq_schoolId e, eq_externalCourseCode e))
           (ExternalCourse db)))"
    by (simp add: left_join_ext_def Let_def)
  also have "\<dots> = [find_ext db (eq_schoolId e) (eq_externalCourseCode e)]"
    unfolding find_ext_def by (rule filter_key_find [OF d])
  finally show ?thesis .
qed

lemma joined_one:
  assumes wf: "wf_store db" and g: "g \<in> set (GTCourse db)"
    and e: "e \<in> set (Equivalency db)" and eg: "eq_gtCourseId e = gt_id g"
  shows "map Some (concat (map (\<lambda>s.
         concat (map (\<lambda>gc. map (\<lambda>ec. mk_item s gc ec e) (left_join_ext db e))
           (filter (\<lambda>gc. gt_id gc = eq_gtCourseId e) (GTCourse db))))
         (filter (\<lambda>s. school_id s = eq_schoolId e) (School db))))
       = [expected_item db g e]"
proof -
  from wf have u: "unique_ok db" and fk: "fk_ok db" by (simp_all add: wf_store_def)
  from fk e obtain s where s: "s \<in> set (School db)" "school_id s = eq_schoolId e"
    by (auto simp: fk_ok_def list_all_iff)
  from u have ds: "distinct (map school_id (School db))" and dg: "distinct (map gt_id (GTCourse db))"
    by (simp_all add: unique_ok_def)
  have fs: "filter (\<lambda>y. school_id y = eq_schoolId e) (School db) = [s]"
    using filter_key_unique [OF ds s(1)] s(2) by simp
  have fg: "filter (\<lambda>y. gt_id y = eq_gtCourseId e) (GTCourse db) = [g]"
    using filter_key_unique [OF dg g] eg by simp
  have fnd: "find_school db (eq_schoolId e) = Some s"
    using find_key_unique [OF ds s(1)] s(2) by (simp add: find_school_def)
  show ?thesis
    by (simp add: fs fg left_join_ext_find [OF u] expected_item_def fnd)
qed

lemma map_Some_concat:
  "(\<And>x. x \<in> set xs \<Longrightarrow> map Some (F x) = [G x]) \<Longrightarrow> map Some (concat (map F xs)) = map G xs"
  by (induction xs) auto

lemma joined_rows_expected:
  assumes wf: "wf_store db" and g: "g \<in> set (GTCourse db)"
  shows "map Some (joined_rows db (gt_id g)) = map (expected_item db g) (equivalencies_of db g)"
  unfolding joined_rows_filter equivalencies_of_def
proof (rule map_Some_concat)
  fix e assume "e \<in> set (filter (\<lambda>e. eq_gtCourseId e = gt_id g) (Equivalency db))"
  then have e: "e \<in> set (Equivalency db)" and eg: "eq_gtCourseId e = gt_id g" by simp_all
  show "map Some (concat (map (\<lambda>s.
         concat (map (\<lambda>gc. map (\<lambda>ec. mk_item s gc ec e) (left_join_ext db e))
           (filter (\<lambda>gc. gt_id gc = eq_gtCourseId e) (GTCourse db))))
         (filter (\<lambda>s. school_id s = eq_schoolId e) (School db))))
       = [expected_item db g e]"
    by (rule joined_one [OF wf g e eg])
qed

lemma select_rows_sorted: "sorted (map order_key (select_rows db i))"
  by (simp add: select_rows_def)

lemma select_rows_mset: "mset (select_rows db i) = mset (joined_rows db i)"
  by (simp add: select_rows_def)

lemma select_rows_expected:
  assumes wf: "wf_store db" and g: "g \<in> set (GTCourse db)"
  shows "mset (map Some (select_rows db (gt_id g)))
           = mset (map (expected_item db g) (equivalencies_of db g))"
proof -
  have "mset (map Some (select_rows db (gt_id g))) = image_mset Some (mset (joined_rows db (gt_id g)))"
    by (simp add: select_rows_mset)
  also have "\<dots> = mset (map Some (joined_rows db (gt_id g)))" by simp
  finally show ?thesis by (simp only: joined_rows_expected [OF wf g])
qed

lemma find_gt_Some:
  "find_gt db c = Some g \<Longrightarrow> g \<in> set (GTCourse db) \<and> remove_spaces (gt_code g) = remove_spaces c"
  by (auto simp: find_gt_def find_Some_iff)

lemma equivalents_found:
  assumes "normalizeGT q \<noteq> []" and "find_gt db (normalizeGT q) = Some g"
  shows "equivalents db q = Json (select_rows db (gt_id g)) (length (select_rows db (gt_id g)))"
  using assms by (simp add: equivalents_def Let_def)

lemma equivalents_total: "equivalents db q = Json items n \<Longrightarrow> n = length items"
  by (auto simp: equivalents_def Let_def split: if_splits option.splits)

subsection \<open>Claims about the query handler\<close>

text \<open>
  Claim C3, as stated: whenever the queried code matches a stored GTCourse (codes compared
  with spaces removed), the handler returns all Equivalency rows of that GTCourse. The
  lookup takes the first matching GTCourse only. In the database below the codes "CS 1331"
  and "CS1331" are both stored (the schema makes the code unique as text, not up to spaces);
  the query "CS1331" matches the second course too, that course has one Equivalency row,
  and the response holds only the row of the first course.
\<close>

theorem C3_shadowed_course:
  "wf_store (run shadow_statements empty_store)
   \<and> \<lparr>gt_id = 2, gt_code = ''CS1331'', gt_title = ''Intro to OOP'', gt_creditHours = 3\<rparr>
        \<in> set (GTCourse (run shadow_statements empty_store))
   \<and> remove_spaces ''CS1331'' = remove_spaces (normalizeGT (Some ''CS1331''))
   \<and> equivalencies_of (run shadow_statements empty_store)
        \<lparr>gt_id = 2, gt_code = ''CS1331'', gt_title = ''Intro to OOP'', gt_creditHours = 3\<rparr>
       = [\<lparr>eq_id = 2, eq_gtCourseId = 2, eq_schoolId = 1, eq_externalCourseCode = ''CSC 2511'',
           eq_semester = ''Fall 2025''\<rparr>]
   \<and> equivalents (run shadow_statements empty_store) (Some ''CS1331'')
       = Json [\<lparr>schoolName = ''Georgia State University'', gtCourseCode = ''CS 1331'',
                 gtCourseName = ''Introduction to Object Oriented Programming'',
                 gtCreditHours = 3, externalCourseCode = None, externalCourseName = None,
                 externalCreditHours = None, semester = ''Fall 2025''\<rparr>] 1"
  by code_simp

lemma normalizeGT_None: "normalizeGT None = []"
  by (simp add: normalizeGT_def trim_def toUpperCase_def)

lemma insert_space_Nil_iff: "insert_space t = [] \<longleftrightarrow> t = []"
  by (auto simp: insert_space_def match_letters_digits_def Let_def split: option.splits if_splits)

lemma stripped_upper_Nil_iff: "stripped_upper s = [] \<longleftrightarrow> list_all isWhiteSpace s"
  by (simp add: stripped_upper_def toUpperCase_def strip_whitespace_Nil_iff list_all_iff
      isWhiteSpace_toUpperCase_char)

lemma normalizeGT_Nil_iff: "normalizeGT (Some s) = [] \<longleftrightarrow> list_all isWhiteSpace s"
  by (simp add: normalizeGT_Some insert_space_Nil_iff stripped_upper_Nil_iff)

lemma remove_spaces_normalizeGT: "remove_spaces (normalizeGT (Some s)) = stripped_upper s"
proof -
  have "\<And>c. c \<in> set (stripped_upper s) \<Longrightarrow> c \<noteq> CHR '' ''"
    unfolding stripped_upper_def by (rule no_space_stripped)
  then show ?thesis
    unfolding normalizeGT_Some by (rule remove_spaces_insert_space)
qed

text \<open>
  Claim C9. A request whose gt parameter is absent, empty or white space only gets the 400
  response, whatever the database holds (the handler returns before it reads the
  database); a request whose gt is not blank and whose whitespace-stripped, uppercased form
  equals no stored GTCourse code with spaces removed gets the success value with no items
  and total 0.
\<close>

theorem C9_missing_or_unknown_code:
  assumes "ascii s"
  shows "equivalents db None = Status400 gt_required
       \<and> (list_all isWhiteSpace s \<longrightarrow> equivalents db (Some s) = Status400 gt_required)
       \<and> (\<not> list_all isWhiteSpace s
            \<and> (\<forall>g \<in> set (GTCourse db). remove_spaces (gt_code g) \<noteq> stripped_upper s)
          \<longrightarrow> equivalents db (Some s) = Json [] 0)"
proof (intro conjI impI)
  show "equivalents db None = Status400 gt_required"
    by (simp add: equivalents_def normalizeGT_None)
next
  assume "list_all isWhiteSpace s"
  then have "normalizeGT (Some s) = []" by (simp add: normalizeGT_Nil_iff)
  then show "equivalents db (Some s) = Status400 gt_required"
    by (simp add: equivalents_def)
next
  assume h: "\<not> list_all isWhiteSpace s
     \<and> (\<forall>g \<in> set (GTCourse db). remove_spaces (gt_code g) \<noteq> stripped_upper s)"
  then have ne: "normalizeGT (Some s) \<noteq> []" by (simp add: normalizeGT_Nil_iff)
  from h have "find_gt db (normalizeGT (Some s)) = None"
    by (simp add: find_gt_def find_None_iff remove_spaces_normalizeGT)
  with ne show "equivalents db (Some s) = Json [] 0"
    by (simp add: equivalents_def Let_def)
qed

theorem C9_missing_or_unknown_code_witness:
  "ascii ''ma 1551'' \<and> ascii '' ''
   \<and> equivalents (run seed_statements empty_store) None = Status400 gt_required
   \<and> list_all isWhiteSpace '' ''
   \<and> equivalents (run seed_statements empty_store) (Some '' '') = Status400 gt_required
   \<and> \<not> list_all isWhiteSpace ''ma 1551''
   \<and> stripped_upper ''ma 1551''
        \<notin> set (map (\<lambda>g. remove_spaces (gt_code g)) (GTCourse (run seed_statements empty_store)))
   \<and> equivalents (run seed_statements empty_store) (Some ''ma 1551'') = Json [] 0"
proof -
  have a: "ascii ''ma 1551''" by code_simp
  have b: "ascii '' ''" by code_simp
  have c: "list_all isWhiteSpace '' ''" by code_simp
  have d: "\<not> list_all isWhiteSpace ''ma 1551''" by code_simp
  have e: "stripped_upper ''ma 1551''
        \<notin> set (map (\<lambda>g. remove_spaces (gt_code g)) (GTCourse (run seed_statements empty_store)))"
    by code_simp
  then have e': "\<forall>g \<in> set (GTCourse (run seed_statements empty_store)).
         remove_spaces (gt_code g) \<noteq> stripped_upper ''ma 1551''" by (rule notin_map_ball)
  from C9_missing_or_unknown_code [OF a, of "run seed_statements empty_store"]
       C9_missing_or_unknown_code [OF b, of "run seed_statements empty_store"] a b c d e e'
  show ?thesis by blast
qed

text \<open>
  Claim C10. When the handler answers for the course \<open>g\<close>, an Equivalency row of
  \<open>g\<close> whose (schoolId, externalCourseCode) matches no ExternalCourse row is returned as
  an item with the school's name, the course's columns, the row's semester and NULL in the
  three external columns; the number of items is the number of Equivalency rows of \<open>g\<close>
  (no row is dropped); and in every success response the total is the number of items.
\<close>

theorem C10_unmatched_rows_returned:
  assumes wf: "wf_store db" and ne: "normalizeGT q \<noteq> []"
    and found: "find_gt db (normalizeGT q) = Some g"
    and e: "e \<in> set (Equivalency db)" and eg: "eq_gtCourseId e = gt_id g"
    and unmatched: "\<forall>x \<in> set (ExternalCourse db).
       \<not> (ext_schoolId x = eq_schoolId e \<and> ext_code x = eq_externalCourseCode e)"
  shows "\<exists>items it s. equivalents db q = Json items (length items)
           \<and> length items = length (equivalencies_of db g)
           \<and> it \<in> set items
           \<and> s \<in> set (School db) \<and> school_id s = eq_schoolId e
           \<and> it = \<lparr>schoolName = school_name s, gtCourseCode = gt_code g,
                    gtCourseName = gt_title g, gtCreditHours = gt_creditHours g,
                    externalCourseCode = None, externalCourseName = None,
                    externalCreditHours = None, semester = eq_semester e\<rparr>
           \<and> (\<forall>db' q' items' n. equivalents db' q' = Json items' n \<longrightarrow> n = length items')"
proof -
  let ?items = "select_rows db (gt_id g)"
  from found have g: "g \<in> set (GTCourse db)" by (simp add: find_gt_Some)
  have resp: "equivalents db q = Json ?items (length ?items)"
    using ne found by (rule equivalents_found)
  have ms: "mset (map Some ?items) = mset (map (expected_item db g) (equivalencies_of db g))"
    using wf g by (rule select_rows_expected)
  then have "size (mset (map Some ?items)) = size (mset (map (expected_item db g) (equivalencies_of db g)))"
    by simp
  then have len: "length ?items = length (equivalencies_of db g)" by simp
  from wf have u: "unique_ok db" and fk: "fk_ok db" by (simp_all add: wf_store_def)
  from fk e obtain s where s: "s \<in> set (School db)" "school_id s = eq_schoolId e"
    by (auto simp: fk_ok_def list_all_iff)
  from u have ds: "distinct (map school_id (School db))" by (simp add: unique_ok_def)
  have fs: "find_school db (eq_schoolId e) = Some s"
    using find_key_unique [OF ds s(1)] s(2) by (simp add: find_school_def)
  have fx: "find_ext db (eq_schoolId e) (eq_externalCourseCode e) = None"
    using unmatched by (simp add: find_ext_def find_None_iff)
  have ex: "expected_item db g e = Some (mk_item s g None e)"
    by (simp add: expected_item_def fs fx)
  from e eg have "e \<in> set (equivalencies_of db g)" by (simp add: equivalencies_of_def)
  then have "expected_item db g e \<in> set (map (expected_item db g) (equivalencies_of db g))"
    by simp
  then have "Some (mk_item s g None e) \<in># mset (map (expected_item db g) (equivalencies_of db g))"
    by (simp add: ex)
  then have "Some (mk_item s g None e) \<in># mset (map Some ?items)" by (simp only: ms)
  then have "mk_item s g None e \<in> set ?items" by auto
  then have "\<lparr>schoolName = school_name s, gtCourseCode = gt_code g,
                    gtCourseName = gt_title g, gtCreditHours = gt_creditHours g,
                    externalCourseCode = None, externalCourseName = None,
                    externalCreditHours = None, semester = eq_semester e\<rparr> \<in> set ?items"
    by (simp add: mk_item_def)
  moreover have "\<forall>db' q' items' n. equivalents db' q' = Json items' n \<longrightarrow> n = length items'"
    by (blast dest: equivalents_total)
  ultimately show ?thesis using resp len s by blast
qed

theorem C10_unmatched_rows_returned_witness:
  "wf_store (run unmatched_statements empty_store)
   \<and> normalizeGT (Some ''CS1331'') \<noteq> []
   \<and> find_gt (run unmatched_statements empty_store) (normalizeGT (Some ''CS1331''))
       = Some \<lparr>gt_id = 1, gt_code = ''CS 1331'',
                gt_title = ''Introduction to Object Oriented Programming'', gt_creditHours = 3\<rparr>
   \<and> \<lparr>eq_id = 4, eq_gtCourseId = 1, eq_schoolId = 2, eq_externalCourseCode = ''CS 1301'',
        eq_semester = ''Spring 2026''\<rparr> \<in> set (Equivalency (run unmatched_statements empty_store))
   \<and> (2, ''CS 1301'')
        \<notin> set (map (\<lambda>x. (ext_schoolId x, ext_code x))
                  (ExternalCourse (run unmatched_statements empty_store)))
   \<and> (\<exists>items. equivalents (run unmatched_statements empty_store) (Some ''CS1331'')
                  = Json items (length items)
          \<and> length items = 3
          \<and> \<lparr>schoolName = ''Kennesaw State University'', gtCourseCode = ''CS 1331'',
               gtCourseName = ''Introduction to Object Oriented Programming'',
               gtCreditHours = 3, externalCourseCode = None, externalCourseName = None,
               externalCreditHours = None, semester = ''Spring 2026''\<rparr> \<in> set items)"
proof -
  let ?db = "run unmatched_statements empty_store"
  let ?g = "\<lparr>gt_id = 1, gt_code = ''CS 1331'',
                gt_title = ''Introduction to Object Oriented Programming'', gt_creditHours = 3\<rparr>"
  let ?e = "\<lparr>eq_id = 4, eq_gtCourseId = 1, eq_schoolId = 2, eq_externalCourseCode = ''CS 1301'',
        eq_semester = ''Spring 2026''\<rparr>"
  have a: "wf_store ?db" by code_simp
  have b: "normalizeGT (Some ''CS1331'') \<noteq> []" by code_simp
  have c: "find_gt ?db (normalizeGT (Some ''CS1331'')) = Some ?g" by code_simp
  have d: "?e \<in> set (Equivalency ?db)" by code_simp
  have e: "eq_gtCourseId ?e = gt_id ?g" by simp
  have f0: "(2, ''CS 1301'') \<notin> set (map (\<lambda>x. (ext_schoolId x, ext_code x)) (ExternalCourse ?db))"
    by code_simp
  then have "\<forall>x \<in> set (ExternalCourse ?db). \<not> (ext_schoolId x = 2 \<and> ext_code x = ''CS 1301'')"
    by (rule notin_map_pair)
  then have f: "\<forall>x \<in> set (ExternalCourse ?db).
         \<not> (ext_schoolId x = eq_schoolId ?e \<and> ext_code x = eq_externalCourseCode ?e)"
    by simp
  have n: "length (equivalencies_of ?db ?g) = 3" by code_simp
  have sch: "\<forall>s \<in> set (School ?db). school_id s = 2 \<longrightarrow> school_name s = ''Kennesaw State University''"
    by code_simp
  from C10_unmatched_rows_returned [OF a b c d e f]
  obtain items it s where r: "equivalents ?db (Some ''CS1331'') = Json items (length items)"
    and l: "length items = length (equivalencies_of ?db ?g)"
    and i: "it \<in> set items" and s: "s \<in> set (School ?db)" "school_id s = eq_schoolId ?e"
    and it: "it = \<lparr>schoolName = school_name s, gtCourseCode = gt_code ?g,
                    gtCourseName = gt_title ?g, gtCreditHours = gt_creditHours ?g,
                    externalCourseCode = None, externalCourseName = None,
                    externalCreditHours = None, semester = eq_semester ?e\<rparr>"
    by blast
  from s sch have "school_name s = ''Kennesaw State University''" by simp
  with it i have "\<lparr>schoolName = ''Kennesaw State University'', gtCourseCode = ''CS 1331'',
               gtCourseName = ''Introduction to Object Oriented Programming'',
               gtCreditHours = 3, externalCourseCode = None, externalCourseName = None,
               externalCreditHours = None, semester = ''Spring 2026''\<rparr> \<in> set items"
    by simp
  with r l n have "\<exists>items. equivalents ?db (Some ''CS1331'') = Json items (length items)
          \<and> length items = 3
          \<and> \<lparr>schoolName = ''Kennesaw State University'', gtCourseCode = ''CS 1331'',
               gtCourseName = ''Introduction to Object Oriented Programming'',
               gtCreditHours = 3, externalCourseCode = None, externalCourseName = None,
               externalCreditHours = None, semester = ''Spring 2026''\<rparr> \<in> set items"
    by auto
  with a b c d f0 show ?thesis by simp
qed

section \<open>The pipeline keeps credit hours positive\<close>

lemma positive_credit_None_iff:
  "positive_credit parse v = None \<longleftrightarrow> invalid_credit parse v"
  by (auto simp: positive_credit_def invalid_credit_def split: option.splits)

lemma positive_credit_Some: "positive_credit parse v = Some q \<Longrightarrow> 0 < q"
  by (auto simp: positive_credit_def split: option.splits if_splits)

lemma normalize_record_Inr_credits:
  "normalize_record parse r = Inr n \<Longrightarrow> 0 < n_gtCredit n \<and> 0 < n_extCredit n"
  by (auto simp: normalize_record_def split: option.splits dest: positive_credit_Some)

lemma normalize_record_invalid_credit:
  assumes "invalid_credit parse (r_gtCredit r) \<or> invalid_credit parse (r_extCredit r)"
  shows "\<exists>reasons. normalize_record parse r = Inl reasons \<and> INVALID_CREDIT_HOURS \<in> set reasons"
proof -
  from assms have "positive_credit parse (r_gtCredit r) = None
      \<or> positive_credit parse (r_extCredit r) = None"
    by (simp add: positive_credit_None_iff)
  then show ?thesis
    by (auto simp: normalize_record_def split: option.splits)
qed

lemma cp_insSchool: "credits_positive db \<Longrightarrow> insSchool n db = Inr (i, db') \<Longrightarrow> credits_positive db'"
  by (drule insSchool_Inr(3)) (simp add: credits_positive_def)

lemma cp_insGT:
  "credits_positive db \<Longrightarrow> 0 < h \<Longrightarrow> insGT c t h db = Inr (i, db') \<Longrightarrow> credits_positive db'"
  by (drule insGT_Inr(3)) (simp add: credits_positive_def)

lemma cp_insExt:
  "credits_positive db \<Longrightarrow> 0 < h \<Longrightarrow> insExt sid c t h db = Inr (i, db') \<Longrightarrow> credits_positive db'"
  by (drule insExt_Inr(4)) (simp add: credits_positive_def)

lemma cp_insEq: "credits_positive db \<Longrightarrow> insEq g sid c m db = Inr (i, db') \<Longrightarrow> credits_positive db'"
  by (drule insEq_Inr(5)) (simp add: credits_positive_def)

lemma cp_updGT: "credits_positive db \<Longrightarrow> 0 < h \<Longrightarrow> credits_positive (updGT i t h db)"
  by (auto simp: credits_positive_def updGT_def list_all_iff)

lemma cp_updExt: "credits_positive db \<Longrightarrow> 0 < h \<Longrightarrow> credits_positive (updExt i t h db)"
  by (auto simp: credits_positive_def updExt_def list_all_iff)

lemma cp_updEq: "credits_positive db \<Longrightarrow> credits_positive (updEq i m db)"
  by (simp add: credits_positive_def updEq_def)

lemma cp_upsert_school:
  "credits_positive db \<Longrightarrow> upsert_school n db = Inr (i, db') \<Longrightarrow> credits_positive db'"
  by (auto simp: upsert_school_def split: option.splits dest: cp_insSchool)

lemma cp_upsert_gt:
  "credits_positive db \<Longrightarrow> 0 < h \<Longrightarrow> upsert_gt c t h db = Inr (i, db') \<Longrightarrow> credits_positive db'"
  by (auto simp: upsert_gt_def cp_updGT split: option.splits if_splits dest: cp_insGT)

lemma cp_upsert_ext:
  "credits_positive db \<Longrightarrow> 0 < h \<Longrightarrow> upsert_ext sid c t h db = Inr (i, db') \<Longrightarrow> credits_positive db'"
  by (auto simp: upsert_ext_def cp_updExt split: option.splits if_splits dest: cp_insExt)

lemma cp_upsert_eq:
  "credits_positive db \<Longrightarrow> upsert_eq g sid c m db = Inr (i, db') \<Longrightarrow> credits_positive db'"
  by (auto simp: upsert_eq_def cp_updEq split: option.splits if_splits dest: cp_insEq)

lemma and_then_Inr:
  "and_then r f = Inr y \<longleftrightarrow> (\<exists>x. r = Inr x \<and> f x = Inr y)"
  by (cases r) (simp_all add: and_then_def)

lemma cp_persist:
  assumes cp: "credits_positive db" and g: "0 < n_gtCredit n" and x: "0 < n_extCredit n"
    and p: "persist n db = Inr db'"
  shows "credits_positive db'"
proof -
  from p obtain sid db1 gid db2 xid db3 qid where
    s1: "upsert_school (n_school n) db = Inr (sid, db1)" and
    s2: "upsert_gt (n_gt n) (n_gtTitle n) (n_gtCredit n) db1 = Inr (gid, db2)" and
    s3: "upsert_ext sid (n_ext n) (n_extTitle n) (n_extCredit n) db2 = Inr (xid, db3)" and
    s4: "upsert_eq gid sid (n_ext n) (n_semester n) db3 = Inr (qid, db')"
    by (auto simp: persist_def and_then_Inr)
  from cp s1 have "credits_positive db1" by (rule cp_upsert_school)
  from this g s2 have "credits_positive db2" by (rule cp_upsert_gt)
  from this x s3 have "credits_positive db3" by (rule cp_upsert_ext)
  from this s4 show ?thesis by (rule cp_upsert_eq)
qed

lemma cp_process: "credits_positive db \<Longrightarrow> credits_positive (snd (process parse r db))"
  by (auto simp: process_def split: sum.splits dest: normalize_record_Inr_credits cp_persist)

lemma cp_crawl_from:
  "credits_positive db \<Longrightarrow> credits_positive (crawl_from parse seen rs db)"
  by (induction rs arbitrary: seen db) (auto simp: cp_process split: sum.splits)

lemma process_invalid_credit:
  assumes "invalid_credit parse (r_gtCredit r) \<or> invalid_credit parse (r_extCredit r)"
  shows "\<exists>reasons. process parse r db = (REJECTED reasons, db) \<and> INVALID_CREDIT_HOURS \<in> set reasons"
  using normalize_record_invalid_credit [OF assms] by (auto simp: process_def)

lemma crawl_invalid_credit:
  assumes "invalid_credit parse (r_gtCredit r) \<or> invalid_credit parse (r_extCredit r)"
  shows "crawl parse [r] db = db"
  using normalize_record_invalid_credit [OF assms] by (auto simp: crawl_def)

section \<open>The server's helper agrees with the spec's code normalization\<close>

lemma shape_match:
  assumes "letters_digits_shape c"
  shows "match_letters_digits c = Some (takeWhile isUpperAZ c, dropWhile isUpperAZ c, [])"
proof -
  from assms have a: "takeWhile isUpperAZ c \<noteq> []" and b: "dropWhile isUpperAZ c \<noteq> []"
    and d: "\<forall>x \<in> set (dropWhile isUpperAZ c). isDigit x"
    by (simp_all add: letters_digits_shape_def list_all_iff)
  from d have t: "takeWhile isDigit (dropWhile isUpperAZ c) = dropWhile isUpperAZ c"
    by (simp add: takeWhile_eq_all_conv)
  from d have e: "dropWhile isDigit (dropWhile isUpperAZ c) = []"
    by (simp only: dropWhile_eq_Nil_conv)
  show ?thesis
    unfolding match_letters_digits_def Let_def t e using a b by simp
qed

lemma normalizeGT_agrees_with_normalize_code:
  assumes "normalize_code s = Some c"
  shows "normalizeGT (Some s) = c"
proof -
  from assms have sh: "letters_digits_shape (stripped_upper s)"
    and c: "c = takeWhile isUpperAZ (stripped_upper s) @ '' '' @ dropWhile isUpperAZ (stripped_upper s)"
    by (auto simp: normalize_code_def Let_def stripped_upper_def strip_whitespace_toUpperCase
             split: if_splits)
  from shape_match [OF sh] c show ?thesis
    by (simp add: normalizeGT_Some insert_space_def)
qed

section \<open>Every database the pipeline leaves is reachable by statements\<close>

lemma run_Nil: "run [] db = db"
  by (simp add: run_def)

lemma run_append: "run (xs @ ys) db = run ys (run xs db)"
  by (simp add: run_def)

lemma run_single_Inr: "exec st db = Inr db' \<Longrightarrow> run [st] db = db'"
  by (simp add: run_def step_def)

lemma upsert_school_run:
  "upsert_school n db = Inr (i, db') \<Longrightarrow> \<exists>sts. db' = run sts db"
proof (cases "find (\<lambda>s. school_name s = n) (School db)")
  case None
  assume "upsert_school n db = Inr (i, db')"
  with None have "exec (InsSchool n) db = Inr db'" by (simp add: upsert_school_def)
  then have "run [InsSchool n] db = db'" by (rule run_single_Inr)
  then show ?thesis by blast
next
  case (Some s)
  assume "upsert_school n db = Inr (i, db')"
  with Some have "db' = run [] db" by (simp add: upsert_school_def run_Nil)
  then show ?thesis by blast
qed

lemma upsert_gt_run:
  "upsert_gt c t h db = Inr (i, db') \<Longrightarrow> \<exists>sts. db' = run sts db"
proof (cases "find (\<lambda>g. gt_code g = c) (GTCourse db)")
  case None
  assume "upsert_gt c t h db = Inr (i, db')"
  with None have "exec (InsGT c t h) db = Inr db'" by (simp add: upsert_gt_def)
  then have "run [InsGT c t h] db = db'" by (rule run_single_Inr)
  then show ?thesis by blast
next
  case (Some g)
  assume "upsert_gt c t h db = Inr (i, db')"
  with Some have "db' = run [] db \<or> db' = run [UpdGT (gt_id g) t h] db"
    by (auto simp: upsert_gt_def run_def step_def split: if_splits)
  then show ?thesis by blast
qed

lemma upsert_ext_run:
  "upsert_ext sid c t h db = Inr (i, db') \<Longrightarrow> \<exists>sts. db' = run sts db"
proof (cases "find (\<lambda>x. ext_schoolId x = sid \<and> ext_code x = c) (ExternalCourse db)")
  case None
  assume "upsert_ext sid c t h db = Inr (i, db')"
  with None have "exec (InsExt sid c t h) db = Inr db'" by (simp add: upsert_ext_def)
  then have "run [InsExt sid c t h] db = db'" by (rule run_single_Inr)
  then show ?thesis by blast
next
  case (Some x)
  assume "upsert_ext sid c t h db = Inr (i, db')"
  with Some have "db' = run [] db \<or> db' = run [UpdExt (ext_id x) t h] db"
    by (auto simp: upsert_ext_def run_def step_def split: if_splits)
  then show ?thesis by blast
qed

lemma upsert_eq_run:
  "upsert_eq g sid c m db = Inr (i, db') \<Longrightarrow> \<exists>sts. db' = run sts db"
proof (cases "find (\<lambda>e. eq_key e = (g, sid, c)) (Equivalency db)")
  case None
  assume "upsert_eq g sid c m db = Inr (i, db')"
  with None have "exec (InsEq g sid c m) db = Inr db'" by (simp add: upsert_eq_def)
  then have "run [InsEq g sid c m] db = db'" by (rule run_single_Inr)
  then show ?thesis by blast
next
  case (Some e)
  assume "upsert_eq g sid c m db = Inr (i, db')"
  with Some have "db' = run [] db \<or> db' = run [UpdEq (eq_id e) m] db"
    by (auto simp: upsert_eq_def run_def step_def split: if_splits)
  then show ?thesis by blast
qed

lemma persist_run:
  assumes "persist n db = Inr db'"
  shows "\<exists>sts. db' = run sts db"
proof -
  from assms obtain sid db1 gid db2 xid db3 qid where
    s1: "upsert_school (n_school n) db = Inr (sid, db1)" and
    s2: "upsert_gt (n_gt n) (n_gtTitle n) (n_gtCredit n) db1 = Inr (gid, db2)" and
    s3: "upsert_ext sid (n_ext n) (n_extTitle n) (n_extCredit n) db2 = Inr (xid, db3)" and
    s4: "upsert_eq gid sid (n_ext n) (n_semester n) db3 = Inr (qid, db')"
    by (auto simp: persist_def and_then_Inr)
  from upsert_school_run [OF s1] obtain a where a: "db1 = run a db" by blast
  from upsert_gt_run [OF s2] obtain b where b: "db2 = run b db1" by blast
  from upsert_ext_run [OF s3] obtain c where c: "db3 = run c db2" by blast
  from upsert_eq_run [OF s4] obtain d where d: "db' = run d db3" by blast
  from a b c d have "db' = run (a @ b @ c @ d) db" by (simp add: run_append)
  then show ?thesis by blast
qed

lemma process_run: "\<exists>sts. snd (process parse r db) = run sts db"
proof (cases "normalize_record parse r")
  case (Inl reasons)
  then have "snd (process parse r db) = run [] db" by (simp add: process_def run_Nil)
  then show ?thesis by blast
next
  case (Inr n)
  show ?thesis
  proof (cases "persist n db")
    case (Inl e)
    with Inr have "snd (process parse r db) = run [] db" by (simp add: process_def run_Nil)
    then show ?thesis by blast
  next
    case (Inr db')
    with \<open>normalize_record parse r = Inr n\<close> have "snd (process parse r db) = db'"
      by (simp add: process_def)
    with persist_run [OF Inr] show ?thesis by simp
  qed
qed

lemma crawl_from_run: "\<exists>sts. crawl_from parse seen rs db = run sts db"
proof (induction rs arbitrary: seen db)
  case Nil
  have "crawl_from parse seen [] db = run [] db" by (simp add: run_Nil)
  then show ?case by blast
next
  case (Cons r rs)
  show ?case
  proof (cases "\<exists>n. normalize_record parse r = Inr n \<and> dedup_key n \<notin> set seen")
    case True
    then obtain n where n: "normalize_record parse r = Inr n" "dedup_key n \<notin> set seen" by blast
    from process_run obtain a where a: "snd (process parse r db) = run a db" by blast
    from Cons.IH obtain b where
      b: "crawl_from parse (dedup_key n # seen) rs (snd (process parse r db))
            = run b (snd (process parse r db))" by blast
    from n a b have "crawl_from parse seen (r # rs) db = run (a @ b) db"
      by (simp add: run_append)
    then show ?thesis by blast
  next
    case False
    then have "crawl_from parse seen (r # rs) db = crawl_from parse seen rs db"
      by (auto split: sum.splits)
    with Cons.IH show ?thesis by simp
  qed
qed

lemma crawl_reachable: "\<exists>sts. crawl parse rs empty_store = run sts empty_store"
  unfolding crawl_def by (rule crawl_from_run)

lemma crawl_wf: "wf_store (crawl parse rs empty_store)"
proof -
  from crawl_reachable obtain sts where "crawl parse rs empty_store = run sts empty_store"
    by blast
  then show ?thesis by (simp add: wf_run)
qed

subsection \<open>Claims about the pipeline\<close>

text \<open>
  Claim C6. Against the pipeline modelled from the specification: starting from a database
  whose credit hours are all positive (the empty one, or the seeded one), every database a
  crawl or a single processed record leaves has only positive credit hours on its GTCourse
  and ExternalCourse rows; and a raw record whose GT or external credit hours are
  unparsable or \<le> 0 is rejected with the reason \<open>INVALID_CREDIT_HOURS\<close> and leaves
  the database exactly as it was (nothing of it is stored, no value is substituted).
\<close>

theorem C6_credit_hours_positive:
  assumes "credits_positive db"
  shows "credits_positive (crawl parse rs db)
       \<and> credits_positive (snd (process parse r db))
       \<and> (invalid_credit parse (r_gtCredit r) \<or> invalid_credit parse (r_extCredit r) \<longrightarrow>
            (\<exists>reasons. process parse r db = (REJECTED reasons, db)
                       \<and> INVALID_CREDIT_HOURS \<in> set reasons)
            \<and> crawl parse [r] db = db)"
proof (intro conjI impI)
  show "credits_positive (crawl parse rs db)"
    unfolding crawl_def using assms by (rule cp_crawl_from)
  show "credits_positive (snd (process parse r db))"
    using assms by (rule cp_process)
next
  assume "invalid_credit parse (r_gtCredit r) \<or> invalid_credit parse (r_extCredit r)"
  then show "\<exists>reasons. process parse r db = (REJECTED reasons, db)
                       \<and> INVALID_CREDIT_HOURS \<in> set reasons"
    by (rule process_invalid_credit)
next
  assume "invalid_credit parse (r_gtCredit r) \<or> invalid_credit parse (r_extCredit r)"
  then show "crawl parse [r] db = db"
    by (rule crawl_invalid_credit)
qed

theorem C6_credit_hours_positive_witness:
  "credits_positive (run seed_statements empty_store)
   \<and> credits_positive (crawl parse_decimal [example_record, zero_credit_record, na_credit_record]
        (run seed_statements empty_store))
   \<and> invalid_credit parse_decimal (r_gtCredit zero_credit_record)
   \<and> process parse_decimal zero_credit_record (run seed_statements empty_store)
       = (REJECTED [INVALID_CREDIT_HOURS], run seed_statements empty_store)
   \<and> invalid_credit parse_decimal (r_extCredit na_credit_record)
   \<and> process parse_decimal na_credit_record (run seed_statements empty_store)
       = (REJECTED [INVALID_CREDIT_HOURS], run seed_statements empty_store)
   \<and> crawl parse_decimal [na_credit_record] (run seed_statements empty_store)
       = run seed_statements empty_store"
proof -
  let ?db = "run seed_statements empty_store"
  have a: "credits_positive ?db" by code_simp
  have z: "invalid_credit parse_decimal (r_gtCredit zero_credit_record)" by code_simp
  have n: "invalid_credit parse_decimal (r_extCredit na_credit_record)" by code_simp
  have pz: "fst (process parse_decimal zero_credit_record ?db) = REJECTED [INVALID_CREDIT_HOURS]"
    by code_simp
  have pn: "fst (process parse_decimal na_credit_record ?db) = REJECTED [INVALID_CREDIT_HOURS]"
    by code_simp
  from C6_credit_hours_positive [OF a, of parse_decimal
      "[example_record, zero_credit_record, na_credit_record]" zero_credit_record] z
  have c1: "credits_positive (crawl parse_decimal
      [example_record, zero_credit_record, na_credit_record] ?db)"
    and c2: "\<exists>reasons. process parse_decimal zero_credit_record ?db = (REJECTED reasons, ?db)"
    by blast+
  from C6_credit_hours_positive [OF a, of parse_decimal "[]" na_credit_record] n
  have c3: "\<exists>reasons. process parse_decimal na_credit_record ?db = (REJECTED reasons, ?db)"
    and c4: "crawl parse_decimal [na_credit_record] ?db = ?db"
    by blast+
  from c2 pz have c2': "process parse_decimal zero_credit_record ?db
       = (REJECTED [INVALID_CREDIT_HOURS], ?db)" by auto
  from c3 pn have c3': "process parse_decimal na_credit_record ?db
       = (REJECTED [INVALID_CREDIT_HOURS], ?db)" by auto
  from a c1 z c2' n c3' c4 show ?thesis by blast
qed

text \<open>
  Claim C7. Against the pipeline modelled from the specification and the query handler of
  the server: processing the raw record of the scenario on the empty database ends
  \<open>DONE\<close> and leaves exactly one School, one GTCourse with code "CS 1331", one
  ExternalCourse with code "CSC 2510" and one Equivalency; the seed block of the server
  then adds nothing (GTCourse is not empty); and the query for "CS 1331" returns exactly
  that one item, with total 1. This holds for every parser of credit-hours texts.
\<close>

theorem C7_end_to_end:
  "fst (process parse example_record empty_store) = DONE
   \<and> School (snd (process parse example_record empty_store))
       = [\<lparr>school_id = 1, school_name = ''Georgia State University''\<rparr>]
   \<and> GTCourse (snd (process parse example_record empty_store))
       = [\<lparr>gt_id = 1, gt_code = ''CS 1331'', gt_title = ''Intro to OOP'', gt_creditHours = 3\<rparr>]
   \<and> ExternalCourse (snd (process parse example_record empty_store))
       = [\<lparr>ext_id = 1, ext_schoolId = 1, ext_code = ''CSC 2510'', ext_title = ''OOP'',
           ext_creditHours = 3\<rparr>]
   \<and> Equivalency (snd (process parse example_record empty_store))
       = [\<lparr>eq_id = 1, eq_gtCourseId = 1, eq_schoolId = 1, eq_externalCourseCode = ''CSC 2510'',
           eq_semester = ''Fall 2025''\<rparr>]
   \<and> seed (snd (process parse example_record empty_store))
       = Inr (snd (process parse example_record empty_store))
   \<and> equivalents (snd (process parse example_record empty_store)) (Some ''CS 1331'')
       = Json [\<lparr>schoolName = ''Georgia State University'', gtCourseCode = ''CS 1331'',
                 gtCourseName = ''Intro to OOP'', gtCreditHours = 3,
                 externalCourseCode = Some ''CSC 2510'', externalCourseName = Some ''OOP'',
                 externalCreditHours = Some 3, semester = ''Fall 2025''\<rparr>] 1"
  by code_simp

section \<open>The lookup finds the first matching course\<close>

lemma find_least_key:
  fixes f :: "'a \<Rightarrow> int"
  assumes "sorted_wrt (<) (map f xs)" and "g \<in> set xs" and "P g"
    and "\<forall>h \<in> set xs. P h \<longrightarrow> f g \<le> f h"
  shows "find P xs = Some g"
  using assms
proof (induction xs)
  case Nil
  then show ?case by simp
next
  case (Cons a xs)
  show ?case
  proof (cases "P a")
    case True
    with Cons.prems(4) have le: "f g \<le> f a" by simp
    have "g = a"
    proof (rule ccontr)
      assume "g \<noteq> a"
      with Cons.prems(2) have "g \<in> set xs" by simp
      with Cons.prems(1) have "f a < f g" by auto
      with le show False by simp
    qed
    with True show ?thesis by simp
  next
    case False
    with Cons.prems(3) have "g \<noteq> a" by blast
    with Cons.prems(2) have "g \<in> set xs" by simp
    moreover from Cons.prems(1) have "sorted_wrt (<) (map f xs)" by simp
    moreover from Cons.prems(4) have "\<forall>h \<in> set xs. P h \<longrightarrow> f g \<le> f h" by simp
    ultimately have "find P xs = Some g" using Cons.prems(3) by (intro Cons.IH)
    with False show ?thesis by simp
  qed
qed

lemma find_gt_first_match:
  assumes "gt_rowid_order db" and "g \<in> set (GTCourse db)"
    and "remove_spaces (gt_code g) = stripped_upper s"
    and "\<forall>h \<in> set (GTCourse db). remove_spaces (gt_code h) = stripped_upper s \<longrightarrow> gt_id g \<le> gt_id h"
  shows "find_gt db (normalizeGT (Some s)) = Some g"
  unfolding find_gt_def remove_spaces_normalizeGT
  using assms(1) [unfolded gt_rowid_order_def] assms(2-4) by (rule find_least_key)

lemma next_rowid_above: "next_rowid sq ids = Some i \<Longrightarrow> \<forall>j \<in> set ids. j < i"
proof -
  assume "next_rowid sq ids = Some i"
  then have "i = fold max ids sq + 1"
    by (auto simp: next_rowid_def Let_def split: if_splits)
  with fold_max_ge [of sq ids] show ?thesis by fastforce
qed

lemma gro_insGT: "gt_rowid_order db \<Longrightarrow> insGT c t h db = Inr (i, db') \<Longrightarrow> gt_rowid_order db'"
proof -
  assume o: "gt_rowid_order db" and ins: "insGT c t h db = Inr (i, db')"
  from ins have "next_rowid (seq_GTCourse db) (map gt_id (GTCourse db)) = Some i"
    by (auto simp: insGT_def split: option.splits if_splits)
  then have "\<forall>j \<in> set (map gt_id (GTCourse db)). j < i" by (rule next_rowid_above)
  with o insGT_Inr(3) [OF ins] show ?thesis
    by (simp add: gt_rowid_order_def sorted_wrt_append)
qed

lemma sorted_wrt_map_filter:
  "sorted_wrt R (map f xs) \<Longrightarrow> sorted_wrt R (map f (filter P xs))"
  unfolding sorted_wrt_map by (rule sorted_wrt_filter)

lemma gro_exec: "gt_rowid_order db \<Longrightarrow> exec st db = Inr db' \<Longrightarrow> gt_rowid_order db'"
proof (cases st)
  case (InsSchool n)
  assume "gt_rowid_order db" "exec st db = Inr db'"
  with InsSchool show ?thesis
    by (cases "insSchool n db") (auto simp: gt_rowid_order_def dest!: insSchool_Inr(3))
next
  case (InsGT c t h)
  assume "gt_rowid_order db" "exec st db = Inr db'"
  with InsGT show ?thesis
    by (cases "insGT c t h db") (auto dest: gro_insGT)
next
  case (InsExt sid c t h)
  assume "gt_rowid_order db" "exec st db = Inr db'"
  with InsExt show ?thesis
    by (cases "insExt sid c t h db") (auto simp: gt_rowid_order_def dest!: insExt_Inr(4))
next
  case (InsEq g sid c m)
  assume "gt_rowid_order db" "exec st db = Inr db'"
  with InsEq show ?thesis
    by (cases "insEq g sid c m db") (auto simp: gt_rowid_order_def dest!: insEq_Inr(5))
next
  case (DelGT i)
  assume "gt_rowid_order db" "exec st db = Inr db'"
  with DelGT show ?thesis
    by (auto simp: gt_rowid_order_def delGT_def intro: sorted_wrt_map_filter)
next
  case (UpdGT i t h)
  assume "gt_rowid_order db" "exec st db = Inr db'"
  with UpdGT show ?thesis
    by (auto simp: gt_rowid_order_def updGT_keys(1))
qed (auto simp: gt_rowid_order_def delSchool_def delExt_def delEq_def updExt_def updEq_def)

lemma gro_run: "gt_rowid_order (run sts empty_store)"
proof -
  have s: "gt_rowid_order db \<Longrightarrow> gt_rowid_order (step db st)" for db st
    by (auto simp: step_def split: sum.splits dest: gro_exec)
  have "gt_rowid_order db \<Longrightarrow> gt_rowid_order (foldl step db sts)" for db
    by (induction sts arbitrary: db) (auto simp: s)
  moreover have "gt_rowid_order empty_store" by (simp add: gt_rowid_order_def empty_store_def)
  ultimately show ?thesis by (simp add: run_def)
qed

text \<open>
  Claim C3, amended: in every database that satisfies the schema's constraints and holds its
  GTCourse rows in row-id order, for every query that is not blank, when \<open>g\<close> is the
  stored GTCourse with the least id among those whose code, with spaces removed, equals the
  whitespace-stripped, uppercased query, the handler returns exactly one item for each
  Equivalency row of \<open>g\<close> (the row joined with its School, with \<open>g\<close> and with its
  ExternalCourse, if any), the total is the number of items, and the items are sorted by
  school name first and external course code second (NULL first). The rows of a later
  matching course are not among them.
\<close>

theorem C3_query_rows_of_first_match:
  assumes "wf_store db" and "gt_rowid_order db"
    and "ascii s" and "\<not> list_all isWhiteSpace s"
    and "g \<in> set (GTCourse db)"
    and "remove_spaces (gt_code g) = stripped_upper s"
    and "\<forall>h \<in> set (GTCourse db).
           remove_spaces (gt_code h) = stripped_upper s \<longrightarrow> gt_id g \<le> gt_id h"
  shows "\<exists>items. equivalents db (Some s) = Json items (length items)
           \<and> sorted (map order_key items)
           \<and> mset (map Some items) = mset (map (expected_item db g) (equivalencies_of db g))"
proof -
  from assms(4) have ne: "normalizeGT (Some s) \<noteq> []" by (simp add: normalizeGT_Nil_iff)
  have found: "find_gt db (normalizeGT (Some s)) = Some g"
    using assms(2,5,6,7) by (rule find_gt_first_match)
  have "equivalents db (Some s)
          = Json (select_rows db (gt_id g)) (length (select_rows db (gt_id g)))"
    using ne found by (rule equivalents_found)
  moreover have "sorted (map order_key (select_rows db (gt_id g)))"
    by (rule select_rows_sorted)
  moreover have "mset (map Some (select_rows db (gt_id g)))
       = mset (map (expected_item db g) (equivalencies_of db g))"
    using assms(1,5) by (rule select_rows_expected)
  ultimately show ?thesis by blast
qed


theorem C3_query_rows_of_first_match_witness:
  "wf_store (run shadow_statements empty_store)
   \<and> gt_rowid_order (run shadow_statements empty_store)
   \<and> ascii ''CS1331'' \<and> \<not> list_all isWhiteSpace ''CS1331''
   \<and> \<lparr>gt_id = 1, gt_code = ''CS 1331'',
        gt_title = ''Introduction to Object Oriented Programming'', gt_creditHours = 3\<rparr>
        \<in> set (GTCourse (run shadow_statements empty_store))
   \<and> remove_spaces ''CS 1331'' = stripped_upper ''CS1331''
   \<and> \<lparr>gt_id = 2, gt_code = ''CS1331'', gt_title = ''Intro to OOP'', gt_creditHours = 3\<rparr>
        \<in> set (GTCourse (run shadow_statements empty_store))
   \<and> remove_spaces ''CS1331'' = stripped_upper ''CS1331''
   \<and> list_all (\<lambda>h. remove_spaces (gt_code h) \<noteq> stripped_upper ''CS1331'' \<or> 1 \<le> gt_id h)
        (GTCourse (run shadow_statements empty_store))
   \<and> (\<exists>items. equivalents (run shadow_statements empty_store) (Some ''CS1331'')
                   = Json items (length items)
           \<and> sorted (map order_key items)
           \<and> mset (map Some items)
               = mset (map (expected_item (run shadow_statements empty_store)
                             \<lparr>gt_id = 1, gt_code = ''CS 1331'',
                               gt_title = ''Introduction to Object Oriented Programming'',
                               gt_creditHours = 3\<rparr>)
                        (equivalencies_of (run shadow_statements empty_store)
                             \<lparr>gt_id = 1, gt_code = ''CS 1331'',
                               gt_title = ''Introduction to Object Oriented Programming'',
                               gt_creditHours = 3\<rparr>)))
   \<and> map (expected_item (run shadow_statements empty_store)
             \<lparr>gt_id = 1, gt_code = ''CS 1331'',
               gt_title = ''Introduction to Object Oriented Programming'', gt_creditHours = 3\<rparr>)
        (equivalencies_of (run shadow_statements empty_store)
             \<lparr>gt_id = 1, gt_code = ''CS 1331'',
               gt_title = ''Introduction to Object Oriented Programming'', gt_creditHours = 3\<rparr>)
       = [Some \<lparr>schoolName = ''Georgia State University'', gtCourseCode = ''CS 1331'',
                 gtCourseName = ''Introduction to Object Oriented Programming'',
                 gtCreditHours = 3, externalCourseCode = None, externalCourseName = None,
                 externalCreditHours = None, semester = ''Fall 2025''\<rparr>]"
proof -
  let ?db = "run shadow_statements empty_store"
  let ?g = "\<lparr>gt_id = 1, gt_code = ''CS 1331'',
        gt_title = ''Introduction to Object Oriented Programming'', gt_creditHours = 3\<rparr>"
  have a: "wf_store ?db" by code_simp
  have b: "gt_rowid_order ?db" by code_simp
  have c: "ascii ''CS1331''" by code_simp
  have d: "\<not> list_all isWhiteSpace ''CS1331''" by code_simp
  have e: "?g \<in> set (GTCourse ?db)" by code_simp
  have f: "remove_spaces ''CS 1331'' = stripped_upper ''CS1331''" by code_simp
  have f': "remove_spaces (gt_code ?g) = stripped_upper ''CS1331''" using f by simp
  have g2: "\<lparr>gt_id = 2, gt_code = ''CS1331'', gt_title = ''Intro to OOP'', gt_creditHours = 3\<rparr>
        \<in> set (GTCourse ?db)" by code_simp
  have f2: "remove_spaces ''CS1331'' = stripped_upper ''CS1331''" by code_simp
  have m: "list_all (\<lambda>h. remove_spaces (gt_code h) \<noteq> stripped_upper ''CS1331'' \<or> 1 \<le> gt_id h)
        (GTCourse ?db)" by code_simp
  then have m': "\<forall>h \<in> set (GTCourse ?db).
           remove_spaces (gt_code h) = stripped_upper ''CS1331'' \<longrightarrow> gt_id ?g \<le> gt_id h"
    by (auto simp: list_all_iff)
  have x: "map (expected_item ?db ?g) (equivalencies_of ?db ?g)
       = [Some \<lparr>schoolName = ''Georgia State University'', gtCourseCode = ''CS 1331'',
                 gtCourseName = ''Introduction to Object Oriented Programming'',
                 gtCreditHours = 3, externalCourseCode = None, externalCourseName = None,
                 externalCreditHours = None, semester = ''Fall 2025''\<rparr>]"
    by code_simp
  from C3_query_rows_of_first_match [OF a b c d e f' m'] a b c d e f g2 f2 m x
  show ?thesis by blast
qed

section \<open>The Normalizer rejects malformed codes\<close>

lemma normalize_code_None_iff:
  "normalize_code s = None \<longleftrightarrow> \<not> letters_digits_shape (stripped_upper s)"
  by (simp add: normalize_code_def Let_def stripped_upper_def strip_whitespace_toUpperCase)

lemma normalize_record_malformed:
  assumes "normalize_code (r_gt r) = None \<or> normalize_code (r_ext r) = None"
  shows "\<exists>reasons. normalize_record parse r = Inl reasons \<and> MALFORMED_CODE \<in> set reasons"
  using assms by (auto simp: normalize_record_def split: option.splits)

text \<open>
  Claim C2. Against the Normalizer modelled from the specification: a course code is
  rejected by the code normalization exactly when its whitespace-stripped, uppercased form
  does not have the shape LETTERS followed by DIGITS; and a raw record whose GT code or
  external code is such a code is not normalized but rejected with the reason
  \<open>MALFORMED_CODE\<close>, and leaves the database as it was.
\<close>

theorem C2_malformed_code_rejected:
  "(normalize_code s = None \<longleftrightarrow> \<not> letters_digits_shape (stripped_upper s))
   \<and> (\<not> letters_digits_shape (stripped_upper s) \<and> (r_gt r = s \<or> r_ext r = s) \<longrightarrow>
        (\<exists>reasons. normalize_record parse r = Inl reasons
            \<and> MALFORMED_CODE \<in> set reasons
            \<and> process parse r db = (REJECTED reasons, db)))"
proof (intro conjI impI)
  show "normalize_code s = None \<longleftrightarrow> \<not> letters_digits_shape (stripped_upper s)"
    by (rule normalize_code_None_iff)
next
  assume h: "\<not> letters_digits_shape (stripped_upper s) \<and> (r_gt r = s \<or> r_ext r = s)"
  then have "normalize_code s = None" by (simp add: normalize_code_None_iff)
  with h have "normalize_code (r_gt r) = None \<or> normalize_code (r_ext r) = None" by auto
  from normalize_record_malformed [OF this, of parse]
  obtain reasons where "normalize_record parse r = Inl reasons" "MALFORMED_CODE \<in> set reasons"
    by blast
  then show "\<exists>reasons. normalize_record parse r = Inl reasons
            \<and> MALFORMED_CODE \<in> set reasons
            \<and> process parse r db = (REJECTED reasons, db)"
    by (simp add: process_def)
qed

theorem C2_malformed_code_rejected_witness:
  "normalize_code ''123ABC'' = None
   \<and> \<not> letters_digits_shape (stripped_upper ''123ABC'')
   \<and> r_gt malformed_gt_record = ''123ABC''
   \<and> process parse_decimal malformed_gt_record (run seed_statements empty_store)
       = (REJECTED [MALFORMED_CODE], run seed_statements empty_store)
   \<and> normalize_code ''CS'' = None
   \<and> \<not> letters_digits_shape (stripped_upper ''CS'')
   \<and> r_ext malformed_ext_record = ''CS''
   \<and> process parse_decimal malformed_ext_record (run seed_statements empty_store)
       = (REJECTED [MALFORMED_CODE], run seed_statements empty_store)
   \<and> normalize_code ''cs 1331'' = Some ''CS 1331''
   \<and> letters_digits_shape (stripped_upper ''cs 1331'')"
proof -
  let ?db = "run seed_statements empty_store"
  have a: "\<not> letters_digits_shape (stripped_upper ''123ABC'')" by code_simp
  have b: "r_gt malformed_gt_record = ''123ABC''" by code_simp
  have c: "\<not> letters_digits_shape (stripped_upper ''CS'')" by code_simp
  have d: "r_ext malformed_ext_record = ''CS''" by code_simp
  have e: "letters_digits_shape (stripped_upper ''cs 1331'')" by code_simp
  have n1: "normalize_record parse_decimal malformed_gt_record = Inl [MALFORMED_CODE]"
    by code_simp
  have n2: "normalize_record parse_decimal malformed_ext_record = Inl [MALFORMED_CODE]"
    by code_simp
  have n3: "normalize_code ''cs 1331'' = Some ''CS 1331''" by code_simp
  from C2_malformed_code_rejected [of "''123ABC''" malformed_gt_record parse_decimal ?db] a b n1
  have p1: "normalize_code ''123ABC'' = None"
    and q1: "process parse_decimal malformed_gt_record ?db = (REJECTED [MALFORMED_CODE], ?db)"
    by auto
  from C2_malformed_code_rejected [of "''CS''" malformed_ext_record parse_decimal ?db] c d n2
  have p2: "normalize_code ''CS'' = None"
    and q2: "process parse_decimal malformed_ext_record ?db = (REJECTED [MALFORMED_CODE], ?db)"
    by auto
  from a b c d e p1 q1 p2 q2 n3 show ?thesis by blast
qed

section \<open>The rate limiter keeps every rolling window within the limit\<close>

lemma length_issue_times: "length (issue_times d granted nows) = length nows"
  by (induction nows arbitrary: granted) (simp_all add: Let_def)

lemma acquire_ge_now: "now \<le> acquire d granted now"
  by (simp add: acquire_def split: option.splits)

lemma acquire_ge_slot: "l + d \<le> acquire d (Some l) now"
  by (simp add: acquire_def)

lemma issue_times_not_early:
  "list_all2 (\<lambda>now g. now \<le> g) nows (issue_times d granted nows)"
  by (induction nows arbitrary: granted) (simp_all add: acquire_ge_now Let_def)

lemma issue_times_after_grant:
  assumes "0 \<le> d"
  shows "\<forall>g \<in> set (issue_times d (Some l) nows). l + d \<le> g"
proof (induction nows arbitrary: l)
  case Nil
  then show ?case by simp
next
  case (Cons now nows)
  have a: "l + d \<le> acquire d (Some l) now" by (rule acquire_ge_slot)
  have "\<forall>g \<in> set (issue_times d (Some (acquire d (Some l) now)) nows).
          acquire d (Some l) now + d \<le> g"
    by (rule Cons.IH)
  with a assms have "\<forall>g \<in> set (issue_times d (Some (acquire d (Some l) now)) nows). l + d \<le> g"
    by fastforce
  with a show ?case by (simp add: Let_def)
qed

lemma issue_times_spaced:
  assumes "0 \<le> d"
  shows "sorted_wrt (\<lambda>a b. a + d \<le> b) (issue_times d granted nows)"
proof (induction nows arbitrary: granted)
  case Nil
  then show ?case by simp
next
  case (Cons now nows)
  have "\<forall>g \<in> set (issue_times d (Some (acquire d granted now)) nows).
          acquire d granted now + d \<le> g"
    using assms by (rule issue_times_after_grant)
  with Cons.IH show ?case by (simp add: Let_def)
qed

lemma spaced_span:
  fixes d :: rat
  assumes "sorted_wrt (\<lambda>a b. a + d \<le> b) ys" and "ys \<noteq> []"
  shows "hd ys + of_nat (length ys - 1) * d \<le> last ys"
  using assms
proof (induction ys)
  case Nil
  then show ?case by simp
next
  case (Cons a ys)
  show ?case
  proof (cases "ys = []")
    case True
    then show ?thesis by simp
  next
    case False
    with Cons.prems have "a + d \<le> hd ys" by (cases ys) auto
    moreover from Cons.prems Cons.IH False
    have "hd ys + of_nat (length ys - 1) * d \<le> last ys" by simp
    moreover from False have "of_nat (length (a # ys) - 1) * d = d + of_nat (length ys - 1) * d"
      by (cases ys) (simp_all add: algebra_simps)
    ultimately show ?thesis using False by simp
  qed
qed

lemma spaced_window_count:
  fixes d :: rat
  assumes sp: "sorted_wrt (\<lambda>a b. a + d \<le> b) gs" and R: "0 < R" and d: "d = 60 / of_nat R"
  shows "attempts_in_window t gs \<le> R"
proof -
  let ?ys = "filter (\<lambda>g. t \<le> g \<and> g < t + 60) gs"
  show ?thesis
  proof (cases "?ys = []")
    case True
    then show ?thesis by (simp add: attempts_in_window_def)
  next
    case False
    from sp have "sorted_wrt (\<lambda>a b. a + d \<le> b) ?ys" by (rule sorted_wrt_filter)
    from spaced_span [OF this False]
    have span: "hd ?ys + of_nat (length ?ys - 1) * d \<le> last ?ys" .
    from False have "hd ?ys \<in> set ?ys" by (rule hd_in_set)
    then have lo: "t \<le> hd ?ys" by simp
    from False have "last ?ys \<in> set ?ys" by (rule last_in_set)
    then have hi: "last ?ys < t + 60" by simp
    note lo hi
    with span have lt: "of_nat (length ?ys - 1) * d < 60" by linarith
    from R d have dpos: "0 < d" by simp
    from R d have "of_nat R * d = 60" by simp
    with lt have "of_nat (length ?ys - 1) * d < of_nat R * d" by simp
    with dpos have "(of_nat (length ?ys - 1) :: rat) < of_nat R"
      by (simp only: mult_less_cancel_right_pos)
    then have "length ?ys - 1 < R" by simp
    then show ?thesis by (simp add: attempts_in_window_def)
  qed
qed

text \<open>
  Claim C8. Against the limiter modelled from the specification, with its injected clock:
  for every limit R > 0 (the default is 8) and every sequence of fetch attempts of a run,
  each attempt is issued through the limiter, not before it asked, and every rolling
  60-second window, whatever its start \<open>t\<close>, holds at most R of the times of issue.
\<close>

theorem C8_rate_compliance:
  assumes "0 < R"
  shows "\<exists>gs. run_issue_times R nows = Some gs
           \<and> list_all2 (\<lambda>now g. now \<le> g) nows gs
           \<and> attempts_in_window t gs \<le> R"
proof -
  from assms have s: "slot_length R = Some (60 / of_nat R)" by (simp add: slot_length_def)
  have "(0::rat) \<le> 60 / of_nat R" by simp
  then have "sorted_wrt (\<lambda>a b. a + 60 / of_nat R \<le> b) (issue_times (60 / of_nat R) None nows)"
    by (rule issue_times_spaced)
  from this assms have "attempts_in_window t (issue_times (60 / of_nat R) None nows) \<le> R"
    by (rule spaced_window_count) simp
  moreover have "list_all2 (\<lambda>now g. now \<le> g) nows (issue_times (60 / of_nat R) None nows)"
    by (rule issue_times_not_early)
  ultimately show ?thesis by (simp add: run_issue_times_def s)
qed


theorem C8_rate_compliance_witness:
  "0 < default_requests_per_minute
   \<and> run_issue_times default_requests_per_minute burst_clock
       = Some [0, 15/2, 15, 45/2, 30, 75/2, 45, 105/2, 60, 135/2, 75, 165/2]
   \<and> attempts_in_window 0 [0, 15/2, 15, 45/2, 30, 75/2, 45, 105/2, 60, 135/2, 75, 165/2] = 8
   \<and> (\<exists>gs. run_issue_times default_requests_per_minute burst_clock = Some gs
           \<and> list_all2 (\<lambda>now g. now \<le> g) burst_clock gs
           \<and> attempts_in_window 0 gs \<le> default_requests_per_minute)"
proof -
  have a: "0 < default_requests_per_minute" by (simp add: default_requests_per_minute_def)
  have s: "slot_length default_requests_per_minute = Some (15 / 2)"
    by (simp add: slot_length_def default_requests_per_minute_def)
  have i: "issue_times (15 / 2) None burst_clock
             = [0, 15/2, 15, 45/2, 30, 75/2, 45, 105/2, 60, 135/2, 75, 165/2]"
    by (simp add: burst_clock_def acquire_def Let_def numeral_eq_Suc)
  have b: "run_issue_times default_requests_per_minute burst_clock
       = Some [0, 15/2, 15, 45/2, 30, 75/2, 45, 105/2, 60, 135/2, 75, 165/2]"
    by (simp add: run_issue_times_def s i)
  have c: "attempts_in_window 0 [0, 15/2, 15, 45/2, 30, 75/2, 45, 105/2, 60, 135/2, 75, 165/2] = 8"
    by (simp add: attempts_in_window_def)
  from C8_rate_compliance [OF a, of burst_clock 0] a b c show ?thesis by blast
qed

end
